theory Spec2Isabelle
  imports Complex_Main
begin

section \<open>DDSPTypes.h: constants and data structures\<close>

text \<open>
  The model constants of \<^verbatim>\<open>core/include/ddsp/DDSPTypes.h\<close>.  Sizes and counts are C++
  \<^verbatim>\<open>int\<close>s; the values that occur here are far below \<open>2^31\<close>, so they are modelled by
  \<open>int\<close> (and by \<open>nat\<close> where the code uses them as vector sizes).
\<close>

definition kModelSampleRate_Hz :: real where "kModelSampleRate_Hz = 16000"
definition kModelFrameSize :: int where "kModelFrameSize = 1024"
definition kModelHopSize :: int where "kModelHopSize = 320"
definition kNoiseAmpsSize :: nat where "kNoiseAmpsSize = 65"
definition kHarmonicsSize :: nat where "kHarmonicsSize = 60"
definition kGruModelStateSize :: nat where "kGruModelStateSize = 512"
definition kPitchRangeMin_Hz :: real where "kPitchRangeMin_Hz = 8.18"
definition kPitchRangeMax_Hz :: real where "kPitchRangeMax_Hz = 12543.84"
definition kRingBufferSize :: int where "kRingBufferSize = 61440"

text \<open>
  A value as it is read from a TensorFlow Lite tensor: an IEEE number is a finite value,
  one of the two infinities, or a NaN.  \<^verbatim>\<open>std::isnan\<close> is true of the last only.
  Rounding is not modelled: a finite value carries the real number it stands for.
\<close>

datatype float = Finite real | PosInf | NegInf | NaN

fun isnan :: "float \<Rightarrow> bool" where
  "isnan NaN = True"
| "isnan _ = False"

fun isfinite :: "float \<Rightarrow> bool" where
  "isfinite (Finite _) = True"
| "isfinite _ = False"

record AudioFeatures =
  f0_hz :: float
  loudness_db :: float
  f0_norm :: float
  loudness_norm :: float

record SynthesisControls =
  amplitude :: float
  sc_f0_hz :: float
  noiseAmps :: "float list"
  harmonics :: "float list"

definition SynthesisControls_default :: SynthesisControls where
  "SynthesisControls_default =
     \<lparr>amplitude = Finite 0, sc_f0_hz = Finite 0,
      noiseAmps = replicate kNoiseAmpsSize (Finite 0),
      harmonics = replicate kHarmonicsSize (Finite 0)\<rparr>"

section \<open>PredictControlsModel\<close>

text \<open>
  The predictor keeps the flag \<^verbatim>\<open>model_loaded_\<close>, the interpreter handle (here: whether it
  is non-null) and the recurrent state \<^verbatim>\<open>gruState_\<close>.
\<close>

record PredictControlsModel =
  model_loaded :: bool
  interpreter :: bool
  gruState :: "float list"

definition PredictControlsModel_new :: PredictControlsModel where
  "PredictControlsModel_new =
     \<lparr>model_loaded = False, interpreter = False,
      gruState = replicate kGruModelStateSize (Finite 0)\<rparr>"

definition PredictControlsModel_reset :: "PredictControlsModel \<Rightarrow> PredictControlsModel" where
  "PredictControlsModel_reset m = m\<lparr>gruState := replicate (length (gruState m)) (Finite 0)\<rparr>"

text \<open>
  Modelled from the spec: the TensorFlow Lite runtime is a library outside \<^verbatim>\<open>src/\<close>.  What
  one invocation of it does is a parameter of the model: whether each of the three input
  tensors is found and accepts its buffer, whether \<^verbatim>\<open>TfLiteInterpreterInvoke\<close> succeeds, and
  the contents of the four output tensors (\<open>None\<close> for a tensor whose name is not in the
  index map).  The spec fixes their shapes: amplitude 1, harmonics 60, noise 65, state 512.
\<close>

record TfLiteRun =
  f0_copied :: bool
  loudness_copied :: bool
  state_copied :: bool
  invoke_ok :: bool
  amplitude_tensor :: "float list option"
  harmonics_tensor :: "float list option"
  noise_tensor :: "float list option"
  gru_tensor :: "float list option"

text \<open>
  \<^verbatim>\<open>CopyFromTensor(tensor, dst, count)\<close>: fails on a null tensor;
  \<^verbatim>\<open>TfLiteTensorCopyToBuffer\<close> fails unless the tensor holds exactly \<open>count\<close> elements, and
  otherwise copies them all.  The result is the data written to \<open>dst\<close>.
\<close>

definition CopyFromTensor :: "float list option \<Rightarrow> nat \<Rightarrow> float list option" where
  "CopyFromTensor tensor count =
     (case tensor of
        None \<Rightarrow> None
      | Some xs \<Rightarrow> if length xs = count then Some xs else None)"

text \<open>
  The loop of lines 282--288: every NaN harmonic is overwritten by 0 and, whenever that
  happens, the amplitude is overwritten by 0 too.  The pair is the harmonics vector and
  the amplitude after the loop.
\<close>

fun sanitize_loop :: "float list \<Rightarrow> float \<Rightarrow> float list \<times> float" where
  "sanitize_loop [] amp = ([], amp)"
| "sanitize_loop (harmonic # rest) amp =
     (if isnan harmonic
      then (let (rest', amp') = sanitize_loop rest (Finite 0) in (Finite 0 # rest', amp'))
      else (let (rest', amp') = sanitize_loop rest amp in (harmonic # rest', amp')))"

text \<open>
  \<^verbatim>\<open>PredictControlsModel::call\<close>.  The result is the returned flag, the predictor (its
  \<^verbatim>\<open>gruState_\<close> is overwritten by the last copy) and the output structure, which the
  caller passes by reference and which keeps whatever was written before a failure.
\<close>

definition PredictControlsModel_call ::
  "PredictControlsModel \<Rightarrow> TfLiteRun \<Rightarrow> AudioFeatures \<Rightarrow> SynthesisControls
     \<Rightarrow> bool \<times> PredictControlsModel \<times> SynthesisControls" where
  "PredictControlsModel_call m run input output =
     (if \<not> model_loaded m \<or> \<not> interpreter m then (False, m, output)
      else if \<not> f0_copied run \<or> \<not> loudness_copied run \<or> \<not> state_copied run
        then (False, m, output)
      else if \<not> invoke_ok run then (False, m, output)
      else case CopyFromTensor (amplitude_tensor run) 1 of
        None \<Rightarrow> (False, m, output)
      | Some a \<Rightarrow>
         (let out1 = output\<lparr>amplitude := hd a\<rparr> in
          case CopyFromTensor (harmonics_tensor run) (length (harmonics out1)) of
            None \<Rightarrow> (False, m, out1)
          | Some hs \<Rightarrow>
             (let out2 = out1\<lparr>harmonics := hs\<rparr> in
              case CopyFromTensor (noise_tensor run) (length (noiseAmps out2)) of
                None \<Rightarrow> (False, m, out2)
              | Some ns \<Rightarrow>
                 (let out3 = out2\<lparr>noiseAmps := ns\<rparr> in
                  case CopyFromTensor (gru_tensor run) (length (gruState m)) of
                    None \<Rightarrow> (False, m, out3)
                  | Some g \<Rightarrow>
                     (let m' = m\<lparr>gruState := g\<rparr>;
                          (hs', amp') = sanitize_loop (harmonics out3) (amplitude out3)
                      in (True, m',
                          out3\<lparr>harmonics := hs', amplitude := amp', sc_f0_hz := f0_hz input\<rparr>))))))"

section \<open>Standard-library algorithms and loops over a buffer\<close>

text \<open>
  Samples, frequencies and amplitudes are C++ \<^verbatim>\<open>float\<close>s (the host rate a \<^verbatim>\<open>double\<close>).  The
  signal path is modelled in exact arithmetic: a value is the real number it stands for;
  rounding, overflow and the special values are left out of it.  The spec's data model
  types these quantities as real numbers as well.
\<close>

text \<open>
  The loop \<^verbatim>\<open>for (int i = 0; i < n; ++i) xs[i] = body(i, xs[i]);\<close> over a vector.
\<close>

definition for_index :: "nat \<Rightarrow> (nat \<Rightarrow> 'a \<Rightarrow> 'a) \<Rightarrow> 'a list \<Rightarrow> 'a list" where
  "for_index n body xs = fold (\<lambda>i ys. ys[i := body i (ys ! i)]) [0..<n] xs"

text \<open>\<^verbatim>\<open>std::fill(xs.begin() + a, xs.begin() + b, v)\<close>.\<close>

definition std_fill :: "'a list \<Rightarrow> nat \<Rightarrow> nat \<Rightarrow> 'a \<Rightarrow> 'a list" where
  "std_fill xs a b v = take a xs @ replicate (b - a) v @ drop b xs"

text \<open>\<^verbatim>\<open>std::copy(src.begin(), src.end(), dst.begin() + off)\<close>, for a source that fits.\<close>

definition std_copy :: "'a list \<Rightarrow> 'a list \<Rightarrow> nat \<Rightarrow> 'a list" where
  "std_copy src dst off = take off dst @ src @ drop (off + length src) dst"

text \<open>The range \<^verbatim>\<open>[p + start, p + start + count)\<close> of a buffer.\<close>

definition slice :: "'a list \<Rightarrow> int \<Rightarrow> int \<Rightarrow> 'a list" where
  "slice xs start count = take (nat count) (drop (nat start) xs)"

text \<open>\<^verbatim>\<open>std::accumulate(xs.begin(), xs.end(), 0.0f)\<close>.\<close>

definition std_accumulate :: "real list \<Rightarrow> real \<Rightarrow> real" where
  "std_accumulate xs init = foldl (+) init xs"

text \<open>\<^verbatim>\<open>std::partial_sum\<close>: the running sums of a sequence.\<close>

fun partial_sum_from :: "real \<Rightarrow> real list \<Rightarrow> real list" where
  "partial_sum_from acc [] = []"
| "partial_sum_from acc (x # xs) = (acc + x) # partial_sum_from (acc + x) xs"

definition std_partial_sum :: "real list \<Rightarrow> real list" where
  "std_partial_sum xs = (case xs of [] \<Rightarrow> [] | x # rest \<Rightarrow> x # partial_sum_from x rest)"

text \<open>
  Conversion of a floating value to \<^verbatim>\<open>int\<close> (\<^verbatim>\<open>static_cast<int>\<close>) drops the fraction, towards
  zero.  \<^verbatim>\<open>std::fmod(x, y)\<close> is \<open>x\<close> minus \<open>y\<close> times the quotient truncated the same way, so
  its result has the sign of \<open>x\<close>.
\<close>

definition trunc :: "real \<Rightarrow> int" where
  "trunc x = (if 0 \<le> x then \<lfloor>x\<rfloor> else \<lceil>x\<rceil>)"

definition std_fmod :: "real \<Rightarrow> real \<Rightarrow> real" where
  "std_fmod x y = x - of_int (trunc (x / y)) * y"

definition std_clamp :: "real \<Rightarrow> real \<Rightarrow> real \<Rightarrow> real" where
  "std_clamp v lo hi = (if v < lo then lo else if hi < v then hi else v)"

section \<open>InputUtils.h\<close>

definition offsetPitch :: "real \<Rightarrow> real \<Rightarrow> real" where
  "offsetPitch pitch_Hz semitone_offset = pitch_Hz * (2 powr (semitone_offset / 12))"

definition normalizedPitch :: "real \<Rightarrow> real" where
  "normalizedPitch pitch_Hz =
     (let p = std_clamp pitch_Hz kPitchRangeMin_Hz kPitchRangeMax_Hz;
          midi = 12 * (log 2 p - log 2 440) + 69
      in midi / 127)"

definition normalizedLoudness :: "real \<Rightarrow> real" where
  "normalizedLoudness loudness_dB = loudness_dB / 80 + 1"

definition denormalizeLoudness :: "real \<Rightarrow> real" where
  "denormalizeLoudness loudness_n = (loudness_n - 1) * 80"

section \<open>HarmonicSynthesizer\<close>

definition kTwoPi :: real where
  "kTwoPi = 2 * 3.14159265358979323846"

record HarmonicSynthesizer =
  num_harmonics :: nat
  num_output_samples :: nat
  hs_sample_rate :: real
  previous_phase :: real
  previous_f0 :: "real option"
  previous_amplitude :: real
  previous_harmonic_distribution :: "real list"
  harmonic_series :: "real list"
  frame_frequencies :: "real list"
  frequency_envelope :: "real list"
  phases :: "real list"
  harmonic_amplitudes :: "real list list"
  render_buffer :: "real list"

text \<open>The constructor: \<^verbatim>\<open>std::iota\<close> fills the harmonic series with 1, 2, 3, ...\<close>

definition HarmonicSynthesizer_new :: "nat \<Rightarrow> nat \<Rightarrow> real \<Rightarrow> HarmonicSynthesizer" where
  "HarmonicSynthesizer_new n_harmonics n_output_samples rate =
     \<lparr>num_harmonics = n_harmonics,
      num_output_samples = n_output_samples,
      hs_sample_rate = rate,
      previous_phase = 0,
      previous_f0 = None,
      previous_amplitude = 0,
      previous_harmonic_distribution = replicate n_harmonics 0,
      harmonic_series = map (\<lambda>i. 1 + real i) [0..<n_harmonics],
      frame_frequencies = replicate n_harmonics 0,
      frequency_envelope = replicate n_output_samples 0,
      phases = replicate n_output_samples 0,
      harmonic_amplitudes = replicate n_harmonics (replicate n_output_samples 0),
      render_buffer = replicate n_output_samples 0\<rparr>"

definition HarmonicSynthesizer_reset :: "HarmonicSynthesizer \<Rightarrow> HarmonicSynthesizer" where
  "HarmonicSynthesizer_reset s =
     s\<lparr>previous_phase := 0,
       previous_f0 := None,
       previous_amplitude := 0,
       previous_harmonic_distribution :=
         std_fill (previous_harmonic_distribution s) 0 (length (previous_harmonic_distribution s)) 0,
       render_buffer := std_fill (render_buffer s) 0 (length (render_buffer s)) 0\<rparr>"

text \<open>
  \<^verbatim>\<open>normalizeHarmonicDistribution\<close> works on the caller's vector in place; the model returns
  the synthesizer (its \<^verbatim>\<open>frame_frequencies_\<close> are overwritten) and the vector.
\<close>

definition normalizeHarmonicDistribution ::
  "HarmonicSynthesizer \<Rightarrow> real list \<Rightarrow> real \<Rightarrow> real \<Rightarrow> HarmonicSynthesizer \<times> real list" where
  "normalizeHarmonicDistribution s harmonic_distribution amp f0 =
     (let n = num_harmonics s;
          freqs = for_index n (\<lambda>i _. harmonic_series s ! i * f0) (frame_frequencies s);
          nyquist = hs_sample_rate s / 2;
          d1 = for_index n (\<lambda>i x. if freqs ! i \<ge> nyquist then 0 else x) harmonic_distribution;
          total = std_accumulate d1 0;
          d2 = (if total \<noteq> 0
                then (let scale = 1 / total in for_index n (\<lambda>i x. x * scale) d1)
                else d1);
          d3 = for_index n (\<lambda>i x. x * amp) d2
      in (s\<lparr>frame_frequencies := freqs\<rparr>, d3))"

text \<open>
  \<^verbatim>\<open>interpolateLinearly\<close> is called on the first \<open>num_samples\<close> elements of the result
  vector; \<^verbatim>\<open>midwayLerp\<close> interpolates over the first half and holds the last value over
  the second.
\<close>

definition interpolateLinearly :: "real list \<Rightarrow> nat \<Rightarrow> real \<Rightarrow> real \<Rightarrow> real list" where
  "interpolateLinearly result num_samples first last_v =
     (if num_samples = 0 then result
      else for_index num_samples
             (\<lambda>i _. let t = real i / real num_samples in first + t * (last_v - first)) result)"

definition midwayLerp :: "real \<Rightarrow> real \<Rightarrow> real list \<Rightarrow> real list" where
  "midwayLerp first last_v result =
     (let middle = length result div 2;
          r1 = interpolateLinearly result middle first last_v
      in std_fill r1 middle (length r1) last_v)"

text \<open>
  \<^verbatim>\<open>synthesizeHarmonics\<close>.  \<^verbatim>\<open>phases_.back()\<close> is the last element of a vector of
  \<open>num_output_samples\<close> elements; the synthesizer is built with 320 of them.
\<close>

definition synthesizeHarmonics :: "HarmonicSynthesizer \<Rightarrow> HarmonicSynthesizer" where
  "synthesizeHarmonics s =
     (let n = num_output_samples s;
          env = for_index n (\<lambda>i x. x * (kTwoPi / hs_sample_rate s)) (frequency_envelope s);
          ph0 = std_copy (std_partial_sum env) (phases s) 0;
          ph = for_index n (\<lambda>i x. x + previous_phase s) ph0;
          phase' = std_fmod (last ph) kTwoPi;
          cleared = std_fill (render_buffer s) 0 (length (render_buffer s)) 0;
          mixed = fold (\<lambda>h buf.
                    let harmonic_order = real (h + 1) in
                    for_index n
                      (\<lambda>k x. let phase = ph ! k * harmonic_order;
                                 sinusoid = sin phase * (harmonic_amplitudes s ! h ! k)
                             in x + sinusoid) buf)
                    [0..<num_harmonics s] cleared
      in s\<lparr>frequency_envelope := env, phases := ph, previous_phase := phase',
           render_buffer := mixed\<rparr>)"

text \<open>
  \<^verbatim>\<open>render\<close> returns a reference to \<^verbatim>\<open>render_buffer_\<close> and changes the caller's distribution
  in place: the model returns the synthesizer, whose \<open>render_buffer\<close> is the rendered hop,
  and the distribution.
\<close>

definition HarmonicSynthesizer_render ::
  "HarmonicSynthesizer \<Rightarrow> real list \<Rightarrow> real \<Rightarrow> real \<Rightarrow> HarmonicSynthesizer \<times> real list" where
  "HarmonicSynthesizer_render s harmonic_distribution amp f0 =
     (let (s1, d) = normalizeHarmonicDistribution s harmonic_distribution amp f0;
          s2 = s1\<lparr>previous_amplitude := amp\<rparr>;
          prev_f0 = (case previous_f0 s2 of None \<Rightarrow> f0 | Some p \<Rightarrow> p);
          s3 = s2\<lparr>frequency_envelope := midwayLerp prev_f0 f0 (frequency_envelope s2),
                  previous_f0 := Some f0\<rparr>;
          s4 = s3\<lparr>harmonic_amplitudes :=
                    for_index (num_harmonics s3)
                      (\<lambda>i row. midwayLerp (previous_harmonic_distribution s3 ! i) (d ! i) row)
                      (harmonic_amplitudes s3)\<rparr>;
          s5 = s4\<lparr>previous_harmonic_distribution := d\<rparr>
      in (synthesizeHarmonics s5, d))"

text \<open>
  The shape the constructor gives a synthesizer and every operation keeps: the harmonic
  series 1, 2, ..., and every working buffer of its declared size.
\<close>

definition hs_shape :: "HarmonicSynthesizer \<Rightarrow> bool" where
  "hs_shape s \<longleftrightarrow>
     harmonic_series s = map (\<lambda>i. 1 + real i) [0..<num_harmonics s]
   \<and> length (frame_frequencies s) = num_harmonics s
   \<and> length (previous_harmonic_distribution s) = num_harmonics s
   \<and> length (frequency_envelope s) = num_output_samples s
   \<and> length (phases s) = num_output_samples s
   \<and> length (render_buffer s) = num_output_samples s
   \<and> length (harmonic_amplitudes s) = num_harmonics s
   \<and> list_all (\<lambda>row. length row = num_output_samples s) (harmonic_amplitudes s)"


section \<open>NoiseSynthesizer\<close>

text \<open>
  Of the noise synthesizer the pipeline's claims need the buffers that \<^verbatim>\<open>reset\<close> clears.
  Its \<^verbatim>\<open>render\<close> draws from a random generator and runs library FFTs; the hop it
  produces is a parameter of the pipeline's \<^verbatim>\<open>render\<close> below.
\<close>

record NoiseSynthesizer =
  num_noise_amps :: nat
  ns_num_output_samples :: nat
  impulse_response_size :: nat
  zp_hann_window :: "real list"
  windowed_impulse_response :: "real list"
  white_noise :: "real list"
  noise_audio :: "real list"

definition createZeroPhaseHannWindow :: "nat \<Rightarrow> real list" where
  "createZeroPhaseHannWindow ir_size =
     rotate (ir_size div 2)
       (map (\<lambda>i. 0.5 * (1 - cos (kTwoPi * real i / real ir_size))) [0..<ir_size])"

definition NoiseSynthesizer_new :: "nat \<Rightarrow> nat \<Rightarrow> NoiseSynthesizer" where
  "NoiseSynthesizer_new n_noise_amps n_output_samples =
     (let ir_size = (n_noise_amps - 1) * 2 in
      \<lparr>num_noise_amps = n_noise_amps,
       ns_num_output_samples = n_output_samples,
       impulse_response_size = ir_size,
       zp_hann_window = createZeroPhaseHannWindow ir_size,
       windowed_impulse_response = replicate (512 * 2) 0,
       white_noise = replicate (512 * 2) 0,
       noise_audio = replicate n_output_samples 0\<rparr>)"

definition NoiseSynthesizer_reset :: "NoiseSynthesizer \<Rightarrow> NoiseSynthesizer" where
  "NoiseSynthesizer_reset s =
     s\<lparr>noise_audio := std_fill (noise_audio s) 0 (length (noise_audio s)) 0,
       windowed_impulse_response :=
         std_fill (windowed_impulse_response s) 0 (length (windowed_impulse_response s)) 0,
       white_noise := std_fill (white_noise s) 0 (length (white_noise s)) 0\<rparr>"

section \<open>The ring-buffer index: juce::AbstractFifo\<close>

text \<open>
  Modelled from the spec: \<^verbatim>\<open>juce::AbstractFifo\<close> and \<^verbatim>\<open>juce::AudioBuffer\<close> belong to the
  JUCE library, which is not under \<^verbatim>\<open>src/\<close>.  The spec asks of the ring that reads and
  writes are monotonic and wrap-safe, that the consumer never reads past the committed
  producer index, that a read returns the number of samples actually available, and that
  a write into a full ring drops the tail of the write.  The definitions follow the
  library class: a buffer size and two indices, where \<open>validStart\<close> is the read position
  and \<open>validEnd\<close> the write position, and one slot always stays free.
\<close>

record AbstractFifo =
  bufferSize :: int
  validStart :: int
  validEnd :: int

definition AbstractFifo_new :: "int \<Rightarrow> AbstractFifo" where
  "AbstractFifo_new capacity = \<lparr>bufferSize = capacity, validStart = 0, validEnd = 0\<rparr>"

definition getNumReady :: "AbstractFifo \<Rightarrow> int" where
  "getNumReady f =
     (let vs = validStart f; ve = validEnd f
      in if ve \<ge> vs then ve - vs else bufferSize f - (vs - ve))"


definition AbstractFifo_reset :: "AbstractFifo \<Rightarrow> AbstractFifo" where
  "AbstractFifo_reset f = f\<lparr>validEnd := 0, validStart := 0\<rparr>"

text \<open>The four results are \<open>startIndex1\<close>, \<open>blockSize1\<close>, \<open>startIndex2\<close>, \<open>blockSize2\<close>.\<close>

definition prepareToWrite :: "AbstractFifo \<Rightarrow> int \<Rightarrow> int \<times> int \<times> int \<times> int" where
  "prepareToWrite f numToWrite =
     (let vs = validStart f; ve = validEnd f;
          freeSpace = (if ve \<ge> vs then bufferSize f - (ve - vs) else vs - ve);
          n = min numToWrite (freeSpace - 1)
      in if n \<le> 0 then (0, 0, 0, 0)
         else (let blockSize1 = min (bufferSize f - ve) n;
                   n' = n - blockSize1;
                   blockSize2 = (if n' \<le> 0 then 0 else min n' vs)
               in (ve, blockSize1, 0, blockSize2)))"

definition finishedWrite :: "AbstractFifo \<Rightarrow> int \<Rightarrow> AbstractFifo" where
  "finishedWrite f numWritten =
     (let newEnd = validEnd f + numWritten;
          newEnd' = (if newEnd \<ge> bufferSize f then newEnd - bufferSize f else newEnd)
      in f\<lparr>validEnd := newEnd'\<rparr>)"

definition prepareToRead :: "AbstractFifo \<Rightarrow> int \<Rightarrow> int \<times> int \<times> int \<times> int" where
  "prepareToRead f numWanted =
     (let vs = validStart f; ve = validEnd f;
          numReady = (if ve \<ge> vs then ve - vs else bufferSize f - (vs - ve));
          n = min numWanted numReady
      in if n \<le> 0 then (0, 0, 0, 0)
         else (let blockSize1 = min (bufferSize f - vs) n;
                   n' = n - blockSize1;
                   blockSize2 = (if n' \<le> 0 then 0 else min n' ve)
               in (vs, blockSize1, 0, blockSize2)))"

definition finishedRead :: "AbstractFifo \<Rightarrow> int \<Rightarrow> AbstractFifo" where
  "finishedRead f numRead =
     (let newStart = validStart f + numRead;
          newStart' = (if newStart \<ge> bufferSize f then newStart - bufferSize f else newStart)
      in f\<lparr>validStart := newStart'\<rparr>)"

text \<open>An index pair as every operation leaves it: both inside the buffer.\<close>

definition fifo_ok :: "AbstractFifo \<Rightarrow> bool" where
  "fifo_ok f \<longleftrightarrow>
     0 < bufferSize f \<and> 0 \<le> validStart f \<and> validStart f < bufferSize f
   \<and> 0 \<le> validEnd f \<and> validEnd f < bufferSize f"

text \<open>
  \<^verbatim>\<open>AudioBuffer::setSize(1, n)\<close> followed by \<^verbatim>\<open>clear()\<close>: one channel of \<open>n\<close> zero samples.
  (\<^verbatim>\<open>prepareToPlay\<close> sizes every buffer and then calls \<^verbatim>\<open>reset\<close>, which clears them.)
\<close>

definition AudioBuffer_setSize :: "int \<Rightarrow> real list" where
  "AudioBuffer_setSize n = replicate (nat n) 0"

definition AudioBuffer_clear :: "real list \<Rightarrow> real list" where
  "AudioBuffer_clear buf = replicate (length buf) 0"

text \<open>
  Modelled from the spec: \<^verbatim>\<open>juce::WindowedSincInterpolator\<close> is library code.  The spec
  says that its delay line persists across hops; the model keeps that history as a list
  of samples, which \<^verbatim>\<open>reset\<close> empties.
\<close>

datatype Interpolator = Interpolator (history: "real list")

definition Interpolator_reset :: "Interpolator \<Rightarrow> Interpolator" where
  "Interpolator_reset ip = Interpolator []"

section \<open>InferencePipeline\<close>

record InferencePipeline =
  ip_sample_rate :: real
  samples_per_block :: int
  user_frame_size :: int
  user_hop_size :: int
  model_ready :: bool
  model :: PredictControlsModel
  harmonic_synth :: HarmonicSynthesizer
  noise_synth :: NoiseSynthesizer
  input_fifo :: "AbstractFifo option"
  output_fifo :: "AbstractFifo option"
  input_ring_buffer :: "real list"
  output_ring_buffer :: "real list"
  input_interpolator :: Interpolator
  output_interpolator :: Interpolator
  model_input_buffer :: "real list"
  resampled_model_input_buffer :: "real list"
  synthesis_buffer :: "real list"
  resampled_model_output_buffer :: "real list"
  p_f0_hz :: real
  p_loudness_norm :: real
  pitch_shift_semitones :: real
  harmonic_gain :: real
  noise_gain :: real
  current_pitch :: real
  current_rms :: real
  predict_controls_input :: AudioFeatures
  synthesis_input :: SynthesisControls
  should_run :: bool
  render_thread :: bool

text \<open>
  The constructor.  The two FIFOs are null pointers until \<^verbatim>\<open>prepareToPlay\<close>, and the
  audio buffers are empty; \<open>render_thread\<close> tells whether a worker thread object exists.
\<close>

definition InferencePipeline_new :: InferencePipeline where
  "InferencePipeline_new =
     \<lparr>ip_sample_rate = 48000,
      samples_per_block = 512,
      user_frame_size = 0,
      user_hop_size = 0,
      model_ready = False,
      model = PredictControlsModel_new,
      harmonic_synth =
        HarmonicSynthesizer_new kHarmonicsSize (nat kModelHopSize) kModelSampleRate_Hz,
      noise_synth = NoiseSynthesizer_new kNoiseAmpsSize (nat kModelHopSize),
      input_fifo = None,
      output_fifo = None,
      input_ring_buffer = [],
      output_ring_buffer = [],
      input_interpolator = Interpolator [],
      output_interpolator = Interpolator [],
      model_input_buffer = [],
      resampled_model_input_buffer = [],
      synthesis_buffer = [],
      resampled_model_output_buffer = [],
      p_f0_hz = 440,
      p_loudness_norm = 0.5,
      pitch_shift_semitones = 0,
      harmonic_gain = 1,
      noise_gain = 1,
      current_pitch = 0,
      current_rms = 0,
      predict_controls_input =
        \<lparr>f0_hz = Finite 0, loudness_db = Finite 0, f0_norm = Finite 0,
         loudness_norm = Finite 0\<rparr>,
      synthesis_input = SynthesisControls_default,
      should_run = False,
      render_thread = False\<rparr>"

text \<open>
  \<^verbatim>\<open>loadModel\<close>: whether the library loads the file is a parameter.  Every failing path of
  \<^verbatim>\<open>PredictControlsModel::loadModel\<close> ends in \<^verbatim>\<open>releaseResources\<close>; the successful one sets
  the flag and clears the recurrent state.
\<close>

definition PredictControlsModel_loadModel ::
  "bool \<Rightarrow> PredictControlsModel \<Rightarrow> bool \<times> PredictControlsModel" where
  "PredictControlsModel_loadModel file_ok m =
     (if file_ok
      then (True, PredictControlsModel_reset (m\<lparr>model_loaded := True, interpreter := True\<rparr>))
      else (False, m\<lparr>model_loaded := False, interpreter := False\<rparr>))"

definition loadModel :: "bool \<Rightarrow> InferencePipeline \<Rightarrow> bool \<times> InferencePipeline" where
  "loadModel file_ok s =
     (let (ok, m) = PredictControlsModel_loadModel file_ok (model s)
      in if \<not> ok then (False, s\<lparr>model := m\<rparr>)
         else (True, s\<lparr>model := m, model_ready := True\<rparr>))"

text \<open>
  The worker thread itself is not modelled, only the flag it polls and the thread object:
  \<^verbatim>\<open>startTimer\<close> sets the flag and creates the thread, \<^verbatim>\<open>stopTimer\<close> clears the flag, joins
  and destroys it.
\<close>

definition startTimer :: "int \<Rightarrow> InferencePipeline \<Rightarrow> InferencePipeline" where
  "startTimer interval_ms s =
     (if should_run s then s else s\<lparr>should_run := True, render_thread := True\<rparr>)"

definition stopTimer :: "InferencePipeline \<Rightarrow> InferencePipeline" where
  "stopTimer s = s\<lparr>should_run := False, render_thread := False\<rparr>"

definition pushToInputBuffer :: "real list \<Rightarrow> InferencePipeline \<Rightarrow> InferencePipeline" where
  "pushToInputBuffer buffer s =
     (case input_fifo s of
        None \<Rightarrow> s
      | Some f \<Rightarrow>
         (let num_samples = int (length buffer);
              dst = input_ring_buffer s;
              (start1, size1, start2, size2) = prepareToWrite f num_samples;
              dst1 = (if size1 > 0 then std_copy (slice buffer 0 size1) dst (nat start1)
                      else dst);
              dst2 = (if size2 > 0 then std_copy (slice buffer size1 size2) dst1 (nat start2)
                      else dst1)
          in s\<lparr>input_ring_buffer := dst2,
               input_fifo := Some (finishedWrite f (size1 + size2))\<rparr>))"

definition zeroPadInputBuffer :: "InferencePipeline \<Rightarrow> InferencePipeline" where
  "zeroPadInputBuffer s =
     (if user_frame_size s \<le> 0 \<or> input_fifo s = None then s
      else pushToInputBuffer (AudioBuffer_setSize (user_frame_size s)) s)"

definition reset :: "InferencePipeline \<Rightarrow> InferencePipeline" where
  "reset s =
     zeroPadInputBuffer
       (s\<lparr>model := PredictControlsModel_reset (model s),
          harmonic_synth := HarmonicSynthesizer_reset (harmonic_synth s),
          noise_synth := NoiseSynthesizer_reset (noise_synth s),
          model_input_buffer := AudioBuffer_clear (model_input_buffer s),
          resampled_model_input_buffer := AudioBuffer_clear (resampled_model_input_buffer s),
          synthesis_buffer := AudioBuffer_clear (synthesis_buffer s),
          resampled_model_output_buffer := AudioBuffer_clear (resampled_model_output_buffer s),
          input_fifo := map_option AbstractFifo_reset (input_fifo s),
          output_fifo := map_option AbstractFifo_reset (output_fifo s),
          input_ring_buffer := AudioBuffer_clear (input_ring_buffer s),
          output_ring_buffer := AudioBuffer_clear (output_ring_buffer s),
          input_interpolator := Interpolator_reset (input_interpolator s),
          output_interpolator := Interpolator_reset (output_interpolator s)\<rparr>)"

text \<open>
  \<^verbatim>\<open>prepareToPlay\<close>.  \<^verbatim>\<open>std::ceil\<close> yields an integral value, which the cast keeps; the hop
  size is cast directly, which truncates.
\<close>

definition prepareToPlay :: "real \<Rightarrow> int \<Rightarrow> InferencePipeline \<Rightarrow> InferencePipeline" where
  "prepareToPlay rate block s =
     (let frame = \<lceil>rate * real_of_int kModelFrameSize / kModelSampleRate_Hz\<rceil>;
          hop = trunc (rate * real_of_int kModelHopSize / kModelSampleRate_Hz)
      in reset
           (s\<lparr>ip_sample_rate := rate,
              samples_per_block := block,
              user_frame_size := frame,
              user_hop_size := hop,
              input_fifo := Some (AbstractFifo_new kRingBufferSize),
              output_fifo := Some (AbstractFifo_new kRingBufferSize),
              input_ring_buffer := AudioBuffer_setSize kRingBufferSize,
              output_ring_buffer := AudioBuffer_setSize kRingBufferSize,
              model_input_buffer := AudioBuffer_setSize frame,
              resampled_model_input_buffer := AudioBuffer_setSize kModelFrameSize,
              synthesis_buffer := AudioBuffer_setSize kModelHopSize,
              resampled_model_output_buffer := AudioBuffer_setSize hop\<rparr>))"

text \<open>
  \<^verbatim>\<open>popFromOutputBuffer(output, num_samples)\<close>: the result is the returned count, the
  caller's buffer and the pipeline.  \<^verbatim>\<open>getNextBlock\<close> forwards to it.
\<close>

definition popFromOutputBuffer ::
  "real list \<Rightarrow> int \<Rightarrow> InferencePipeline \<Rightarrow> int \<times> real list \<times> InferencePipeline" where
  "popFromOutputBuffer output num_samples s =
     (case output_fifo s of
        None \<Rightarrow> (0, output, s)
      | Some f \<Rightarrow>
         (let src = output_ring_buffer s;
              (start1, size1, start2, size2) = prepareToRead f num_samples;
              total_read = size1 + size2;
              out1 = (if size1 > 0 then std_copy (slice src start1 size1) output 0
                      else output);
              out2 = (if size2 > 0 then std_copy (slice src start2 size2) out1 (nat size1)
                      else out1);
              f' = finishedRead f total_read;
              out3 = (if total_read < num_samples
                      then std_fill out2 (nat total_read) (nat num_samples) 0
                      else out2)
          in (total_read, out3, s\<lparr>output_fifo := Some f'\<rparr>)))"

definition getNextBlock ::
  "real list \<Rightarrow> int \<Rightarrow> InferencePipeline \<Rightarrow> int \<times> real list \<times> InferencePipeline" where
  "getNextBlock output num_samples s = popFromOutputBuffer output num_samples s"

definition getNumReadySamples :: "InferencePipeline \<Rightarrow> int" where
  "getNumReadySamples s = (case output_fifo s of None \<Rightarrow> 0 | Some f \<Rightarrow> getNumReady f)"

text \<open>
  What the signal chain of one hop leaves behind (lines 281--312 of \<^verbatim>\<open>render\<close>: the gains,
  both synthesizers, the mix and the interpolator).  The noise synthesizer and the
  interpolator are random and library code, so the outcome of the chain is a parameter:
  the controls after the in-place changes, the synthesizers and the interpolator after
  the hop, the mix, and the resampled samples.
\<close>

record HopDsp =
  dsp_controls :: SynthesisControls
  dsp_harmonic :: HarmonicSynthesizer
  dsp_noise :: NoiseSynthesizer
  dsp_mix :: "real list"
  dsp_interpolator :: Interpolator
  dsp_resampled :: "real list"

text \<open>
  \<^verbatim>\<open>render\<close>.  The interpolator is asked for as many samples as
  \<^verbatim>\<open>resampled_model_output_buffer_\<close> holds and writes them there; \<open>output_ptr\<close> is that buffer.
\<close>

definition render :: "TfLiteRun \<Rightarrow> HopDsp \<Rightarrow> InferencePipeline \<Rightarrow> InferencePipeline" where
  "render run dsp s =
     (if \<not> model_ready s then s
      else
        (let f0 = offsetPitch (p_f0_hz s) (pitch_shift_semitones s);
             loudness = p_loudness_norm s;
             f0_n = normalizedPitch f0;
             features = \<lparr>f0_hz = Finite f0,
                         loudness_db = Finite (denormalizeLoudness loudness),
                         f0_norm = Finite f0_n,
                         loudness_norm = Finite loudness\<rparr>;
             s1 = s\<lparr>current_pitch := f0_n, current_rms := loudness,
                     predict_controls_input := features\<rparr>;
             (ok, m, controls) =
                PredictControlsModel_call (model s1) run features (synthesis_input s1);
             s2 = s1\<lparr>model := m, synthesis_input := controls\<rparr>
         in if \<not> ok then s2
            else
              (let output_ptr =
                     std_copy (take (length (resampled_model_output_buffer s2)) (dsp_resampled dsp))
                       (resampled_model_output_buffer s2) 0;
                   s3 = s2\<lparr>synthesis_input := dsp_controls dsp,
                           harmonic_synth := dsp_harmonic dsp,
                           noise_synth := dsp_noise dsp,
                           synthesis_buffer := std_copy (take (length (synthesis_buffer s2)) (dsp_mix dsp))
                                                 (synthesis_buffer s2) 0,
                           output_interpolator := dsp_interpolator dsp,
                           resampled_model_output_buffer := output_ptr\<rparr>
               in case output_fifo s3 of
                    None \<Rightarrow> s3
                  | Some f \<Rightarrow>
                     (let dst = output_ring_buffer s3;
                          (start1, size1, start2, size2) = prepareToWrite f (user_hop_size s3);
                          dst1 = (if size1 > 0
                                  then std_copy (slice output_ptr 0 size1) dst (nat start1)
                                  else dst);
                          dst2 = (if size2 > 0
                                  then std_copy (slice output_ptr size1 size2) dst1 (nat start2)
                                  else dst1)
                      in s3\<lparr>output_ring_buffer := dst2,
                            output_fifo := Some (finishedWrite f (size1 + size2))\<rparr>))))"

definition triggerRender :: "TfLiteRun \<Rightarrow> HopDsp \<Rightarrow> InferencePipeline \<Rightarrow> InferencePipeline" where
  "triggerRender run dsp s = render run dsp s"

text \<open>
  A ring as \<^verbatim>\<open>prepareToPlay\<close> builds it and every operation keeps it: where a FIFO exists,
  its indices lie inside its buffer and the ring buffer has the FIFO's size.
\<close>

definition ring_ok :: "AbstractFifo option \<Rightarrow> real list \<Rightarrow> bool" where
  "ring_ok fifo buf =
     (case fifo of
        None \<Rightarrow> True
      | Some f \<Rightarrow> fifo_ok f \<and> length buf = nat (bufferSize f))"

text \<open>
  The closed form of the Nyquist loop (lines 80--84) on a vector of \<open>n\<close> coefficients: the
  coefficient of harmonic \<open>i + 1\<close> is zeroed when \<open>(i + 1) \<cdot> f0\<close> reaches half the rate.
  It is shown below to be what the loop computes.
\<close>

definition nyquist_filtered :: "nat \<Rightarrow> real \<Rightarrow> real \<Rightarrow> real list \<Rightarrow> real list" where
  "nyquist_filtered n rate f0 d =
     map (\<lambda>i. if (1 + real i) * f0 \<ge> rate / 2 then 0 else d ! i) [0..<n]"

section \<open>Concrete inputs\<close>

text \<open>A loaded predictor, and a run of the interpreter that succeeds with the given first
  two harmonics (the other 58 are 1) and amplitude 1.\<close>

definition loaded_model :: PredictControlsModel where
  "loaded_model =
     \<lparr>model_loaded = True, interpreter = True, gruState = replicate 512 (Finite 0)\<rparr>"

definition features_440 :: AudioFeatures where
  "features_440 =
     \<lparr>f0_hz = Finite 440, loudness_db = Finite (- 40), f0_norm = Finite (1 / 2),
      loudness_norm = Finite (1 / 2)\<rparr>"

definition run_with :: "float \<Rightarrow> float \<Rightarrow> TfLiteRun" where
  "run_with h1 h2 =
     \<lparr>f0_copied = True, loudness_copied = True, state_copied = True, invoke_ok = True,
      amplitude_tensor = Some [Finite 1],
      harmonics_tensor = Some (h1 # h2 # replicate 58 (Finite 1)),
      noise_tensor = Some (replicate 65 (Finite 0)),
      gru_tensor = Some (replicate 512 (Finite 0))\<rparr>"

text \<open>A pipeline prepared for a 48 kHz host with blocks of 512 samples, the same pipeline
  with a model loaded, and the outcome of a silent hop of 960 host-rate samples.\<close>

definition prepared_48k :: InferencePipeline where
  "prepared_48k = prepareToPlay 48000 512 InferencePipeline_new"

definition ready_48k :: InferencePipeline where
  "ready_48k = snd (loadModel True prepared_48k)"

definition silent_hop :: HopDsp where
  "silent_hop =
     \<lparr>dsp_controls = SynthesisControls_default,
      dsp_harmonic = HarmonicSynthesizer_new 60 320 16000,
      dsp_noise = NoiseSynthesizer_new 65 320,
      dsp_mix = replicate 320 0,
      dsp_interpolator = Interpolator [],
      dsp_resampled = replicate 960 0\<rparr>"

section \<open>Properties\<close>

subsection \<open>PredictControlsModel: the NaN loop\<close>

lemma sanitize_loop_fst:
  "fst (sanitize_loop hs amp) = map (\<lambda>h. if isnan h then Finite 0 else h) hs"
  by (induction hs arbitrary: amp) (simp_all add: case_prod_beta)

lemma sanitize_loop_snd_clean:
  "\<forall>h \<in> set hs. \<not> isnan h \<Longrightarrow> snd (sanitize_loop hs amp) = amp"
  by (induction hs arbitrary: amp) (simp_all add: case_prod_beta)

lemma sanitize_loop_snd_nan:
  "\<exists>h \<in> set hs. isnan h \<Longrightarrow> snd (sanitize_loop hs amp) = Finite 0"
proof (induction hs arbitrary: amp)
  case Nil
  then show ?case by simp
next
  case (Cons h hs)
  show ?case
  proof (cases "\<exists>x \<in> set hs. isnan x")
    case True
    then show ?thesis
      using Cons.IH by (simp add: case_prod_beta)
  next
    case False
    then have clean: "snd (sanitize_loop hs (Finite 0)) = Finite 0"
      by (simp add: sanitize_loop_snd_clean)
    from False Cons.prems have "isnan h" by auto
    then show ?thesis
      using clean by (simp add: case_prod_beta)
  qed
qed

lemma call_success_shape:
  assumes "PredictControlsModel_call m run input output = (True, m', out')"
  shows "\<exists>a hs ns g.
           amplitude_tensor run = Some [a] \<and> harmonics_tensor run = Some hs
         \<and> noise_tensor run = Some ns \<and> gru_tensor run = Some g
         \<and> length hs = length (harmonics output)
         \<and> out' = output\<lparr>noiseAmps := ns, harmonics := fst (sanitize_loop hs a),
                          amplitude := snd (sanitize_loop hs a), sc_f0_hz := f0_hz input\<rparr>
         \<and> m' = m\<lparr>gruState := g\<rparr>"
proof -
  from assms obtain av hs ns g where
    t: "amplitude_tensor run = Some av" "length av = 1"
       "harmonics_tensor run = Some hs" "length hs = length (harmonics output)"
       "noise_tensor run = Some ns" "gru_tensor run = Some g"
    by (auto simp: PredictControlsModel_call_def CopyFromTensor_def Let_def
             split: if_splits option.splits prod.splits)
  from t(2) obtain a where av: "av = [a]"
    by (cases av) auto
  from assms t av have "out' = output\<lparr>noiseAmps := ns, harmonics := fst (sanitize_loop hs a),
                          amplitude := snd (sanitize_loop hs a), sc_f0_hz := f0_hz input\<rparr>"
    and "m' = m\<lparr>gruState := g\<rparr>"
    by (auto simp: PredictControlsModel_call_def CopyFromTensor_def Let_def
             split: if_splits option.splits prod.splits)
  with t av show ?thesis by blast
qed

lemmas call_eval = PredictControlsModel_call_def loaded_model_def run_with_def features_440_def
  SynthesisControls_default_def CopyFromTensor_def kHarmonicsSize_def kNoiseAmpsSize_def
  sanitize_loop_fst sanitize_loop_snd_nan sanitize_loop_snd_clean case_prod_beta

text \<open>
  C2 (amended).  On every successful \<^verbatim>\<open>PredictControlsModel::call\<close> the output harmonics
  are the harmonics tensor with every NaN replaced by 0 and every other entry kept; if
  at least one entry was NaN the output amplitude is 0; no resulting harmonic is NaN;
  and the resulting harmonics are all finite when the tensor held no infinity.
\<close>

theorem call_nan_kill_switch:
  assumes "PredictControlsModel_call m run input output = (True, m', out')"
  shows "\<exists>hs. harmonics_tensor run = Some hs
           \<and> harmonics out' = map (\<lambda>h. if isnan h then Finite 0 else h) hs
           \<and> ((\<exists>h \<in> set hs. isnan h) \<longrightarrow> amplitude out' = Finite 0)
           \<and> (\<forall>h \<in> set (harmonics out'). \<not> isnan h)
           \<and> ((\<forall>h \<in> set hs. isnan h \<or> isfinite h)
                \<longrightarrow> (\<forall>h \<in> set (harmonics out'). isfinite h))"
proof -
  from call_success_shape [OF assms] obtain a hs where
    hs: "harmonics_tensor run = Some hs"
    and h': "harmonics out' = fst (sanitize_loop hs a)"
    and a': "amplitude out' = snd (sanitize_loop hs a)"
    by auto
  have "harmonics out' = map (\<lambda>h. if isnan h then Finite 0 else h) hs"
    using h' by (simp add: sanitize_loop_fst)
  moreover have "(\<exists>h \<in> set hs. isnan h) \<longrightarrow> amplitude out' = Finite 0"
    using a' by (simp add: sanitize_loop_snd_nan)
  moreover have "\<forall>h \<in> set (harmonics out'). \<not> isnan h"
    using h' by (auto simp: sanitize_loop_fst)
  moreover have "(\<forall>h \<in> set hs. isnan h \<or> isfinite h)
                   \<longrightarrow> (\<forall>h \<in> set (harmonics out'). isfinite h)"
    using h' by (auto simp: sanitize_loop_fst)
  ultimately show ?thesis using hs by blast
qed

theorem call_nan_kill_switch_witness:
  "fst (PredictControlsModel_call loaded_model (run_with NaN (Finite 1)) features_440
          SynthesisControls_default) = True
   \<and> harmonics (snd (snd (PredictControlsModel_call loaded_model (run_with NaN (Finite 1)) features_440
          SynthesisControls_default))) = Finite 0 # Finite 1 # replicate 58 (Finite 1)
   \<and> amplitude (snd (snd (PredictControlsModel_call loaded_model (run_with NaN (Finite 1)) features_440
          SynthesisControls_default))) = Finite 0"
proof -
  let ?r = "PredictControlsModel_call loaded_model (run_with NaN (Finite 1)) features_440
              SynthesisControls_default"
  have ok: "fst ?r = True"
    by (simp add: call_eval)
  then have run: "?r = (True, fst (snd ?r), snd (snd ?r))"
    by (metis prod.collapse)
  have tensor: "harmonics_tensor (run_with NaN (Finite 1)) = Some (NaN # Finite 1 # replicate 58 (Finite 1))"
    by (simp add: run_with_def)
  from call_nan_kill_switch [OF run] tensor
  have "harmonics (snd (snd ?r)) = Finite 0 # Finite 1 # replicate 58 (Finite 1)"
    and "amplitude (snd (snd ?r)) = Finite 0"
    by auto
  with ok show ?thesis by simp
qed

theorem call_infinite_harmonic_counterexample:
  "fst (PredictControlsModel_call loaded_model (run_with PosInf NaN) features_440
          SynthesisControls_default) = True
   \<and> amplitude (snd (snd (PredictControlsModel_call loaded_model (run_with PosInf NaN)
          features_440 SynthesisControls_default))) = Finite 0
   \<and> harmonics (snd (snd (PredictControlsModel_call loaded_model (run_with PosInf NaN)
          features_440 SynthesisControls_default)))
       = PosInf # Finite 0 # replicate 58 (Finite 1)
   \<and> \<not> isfinite (harmonics (snd (snd (PredictControlsModel_call loaded_model
          (run_with PosInf NaN) features_440 SynthesisControls_default))) ! 0)"
  by (simp add: call_eval)

subsection \<open>Buffers\<close>

lemma length_std_copy:
  "off + length src \<le> length dst \<Longrightarrow> length (std_copy src dst off) = length dst"
  by (simp add: std_copy_def)

lemma nth_std_copy:
  "off + length src \<le> length dst \<Longrightarrow> i < length dst \<Longrightarrow>
   std_copy src dst off ! i = (if off \<le> i \<and> i < off + length src then src ! (i - off) else dst ! i)"
  by (auto simp: std_copy_def nth_append min_def)

lemma length_std_fill:
  "a \<le> b \<Longrightarrow> b \<le> length xs \<Longrightarrow> length (std_fill xs a b v) = length xs"
  by (simp add: std_fill_def)

lemma nth_std_fill:
  "a \<le> b \<Longrightarrow> b \<le> length xs \<Longrightarrow> i < length xs \<Longrightarrow>
   std_fill xs a b v ! i = (if a \<le> i \<and> i < b then v else xs ! i)"
  by (auto simp: std_fill_def nth_append min_def)

lemma std_fill_all: "std_fill xs 0 (length xs) v = replicate (length xs) v"
  by (simp add: std_fill_def)

lemma length_slice:
  "nat start + nat count \<le> length xs \<Longrightarrow> length (slice xs start count) = nat count"
  by (simp add: slice_def)

lemma nth_slice:
  "nat start + nat count \<le> length xs \<Longrightarrow> i < nat count \<Longrightarrow>
   slice xs start count ! i = xs ! (nat start + i)"
  by (simp add: slice_def)

subsection \<open>The FIFO index\<close>

lemma getNumReady_bounds:
  "fifo_ok f \<Longrightarrow> 0 \<le> getNumReady f \<and> getNumReady f < bufferSize f"
  by (auto simp: fifo_ok_def getNumReady_def Let_def)



lemma prepareToRead_blocks:
  assumes "fifo_ok f" and "prepareToRead f n = (start1, size1, start2, size2)"
  shows "size1 + size2 = max 0 (min n (getNumReady f))"
    and "0 \<le> size1" and "0 \<le> size2"
    and "0 < size1 \<Longrightarrow> start1 = validStart f \<and> start1 + size1 \<le> bufferSize f"
    and "0 < size2 \<Longrightarrow> start2 = 0 \<and> size2 \<le> validEnd f \<and> validStart f + size1 = bufferSize f"
    and "0 \<le> start1" and "0 \<le> start2"
    and "size1 = 0 \<Longrightarrow> size2 = 0"
  using assms
  by (auto simp: fifo_ok_def prepareToRead_def getNumReady_def Let_def
           split: if_splits)

lemma finishedRead_ready:
  assumes "fifo_ok f" and "0 \<le> k" and "k \<le> getNumReady f"
  shows "fifo_ok (finishedRead f k)"
    and "getNumReady (finishedRead f k) = getNumReady f - k"
  using assms
  by (auto simp: fifo_ok_def finishedRead_def getNumReady_def Let_def
           split: if_splits)

subsection \<open>InferencePipeline: reading before the FIFO exists\<close>

text \<open>
  C10.  When \<^verbatim>\<open>popFromOutputBuffer\<close> (or \<^verbatim>\<open>getNextBlock\<close>, which forwards to it) is called
  while the output FIFO has not been created, it returns 0 and leaves the destination
  buffer and the pipeline as they were: nothing is zero-filled.  The pipeline is in that
  state after construction.
\<close>

theorem pop_before_prepare:
  assumes "output_fifo s = None"
  shows "popFromOutputBuffer output n s = (0, output, s)
       \<and> getNextBlock output n s = (0, output, s)"
  using assms by (simp add: popFromOutputBuffer_def getNextBlock_def)

theorem pop_before_prepare_witness:
  "output_fifo InferencePipeline_new = None
   \<and> getNextBlock [1, 2, 3] 3 InferencePipeline_new = (0, [1, 2, 3], InferencePipeline_new)
   \<and> popFromOutputBuffer [1, 2, 3] 3 InferencePipeline_new
       = (0, [1, 2, 3], InferencePipeline_new)"
proof -
  have none: "output_fifo InferencePipeline_new = None"
    by (simp add: InferencePipeline_new_def)
  from pop_before_prepare [OF none, of "[1, 2, 3]" 3] none show ?thesis
    by simp
qed

subsection \<open>InferencePipeline: a render tick without a usable predictor\<close>

lemma call_failure_independent_of_features:
  "fst (PredictControlsModel_call m run features output)
     = fst (PredictControlsModel_call m run features' output)"
  by (simp add: PredictControlsModel_call_def Let_def case_prod_beta
           split: option.splits)

text \<open>
  C7.  If the predictor is not loaded, or the predictor call fails, \<^verbatim>\<open>render\<close> returns
  with the output FIFO and the output ring exactly as they were, so the number of ready
  samples is unchanged.  (Whether the call fails does not depend on the feature values,
  only on the predictor and the interpreter run.)
\<close>

theorem render_without_predictor:
  assumes "\<not> model_ready s
         \<or> \<not> fst (PredictControlsModel_call (model s) run features (synthesis_input s))"
  shows "output_fifo (render run dsp s) = output_fifo s
       \<and> output_ring_buffer (render run dsp s) = output_ring_buffer s
       \<and> getNumReadySamples (render run dsp s) = getNumReadySamples s"
proof (cases "model_ready s")
  case False
  then show ?thesis by (simp add: render_def)
next
  case True
  with assms have
    "\<And>features'. \<not> fst (PredictControlsModel_call (model s) run features' (synthesis_input s))"
    using call_failure_independent_of_features by blast
  then show ?thesis
    by (simp add: render_def Let_def case_prod_beta getNumReadySamples_def)
qed

subsection \<open>The prepared example pipeline\<close>

lemma trunc_960: "trunc (48000 * real_of_int kModelHopSize / kModelSampleRate_Hz) = 960"
  by (simp add: trunc_def kModelHopSize_def kModelSampleRate_Hz_def)

lemma ceiling_3072: "\<lceil>48000 * real_of_int kModelFrameSize / kModelSampleRate_Hz\<rceil> = 3072"
  by (simp add: kModelFrameSize_def kModelSampleRate_Hz_def)

lemma prepared_48k_fields:
  "user_frame_size prepared_48k = 3072"
  "user_hop_size prepared_48k = 960"
  "output_fifo prepared_48k = Some \<lparr>bufferSize = 61440, validStart = 0, validEnd = 0\<rparr>"
  "input_fifo prepared_48k = Some \<lparr>bufferSize = 61440, validStart = 0, validEnd = 3072\<rparr>"
  "output_ring_buffer prepared_48k = replicate 61440 0"
  "resampled_model_output_buffer prepared_48k = replicate 960 0"
  "model_ready prepared_48k = False"
  "should_run prepared_48k = False"
  "model prepared_48k = PredictControlsModel_new"
  "synthesis_input prepared_48k = SynthesisControls_default"
  by (simp_all add: prepared_48k_def prepareToPlay_def reset_def zeroPadInputBuffer_def
        pushToInputBuffer_def trunc_960 ceiling_3072 InferencePipeline_new_def Let_def
        AbstractFifo_new_def AbstractFifo_reset_def kRingBufferSize_def prepareToWrite_def
        finishedWrite_def AudioBuffer_setSize_def AudioBuffer_clear_def
        PredictControlsModel_reset_def PredictControlsModel_new_def)


lemma ready_48k_fields:
  "user_frame_size ready_48k = 3072"
  "user_hop_size ready_48k = 960"
  "output_fifo ready_48k = Some \<lparr>bufferSize = 61440, validStart = 0, validEnd = 0\<rparr>"
  "output_ring_buffer ready_48k = replicate 61440 0"
  "resampled_model_output_buffer ready_48k = replicate 960 0"
  "model_ready ready_48k = True"
  "model ready_48k = loaded_model"
  "synthesis_input ready_48k = SynthesisControls_default"
  by (simp_all add: ready_48k_def loadModel_def PredictControlsModel_loadModel_def
        prepared_48k_fields PredictControlsModel_reset_def PredictControlsModel_new_def
        loaded_model_def kGruModelStateSize_def)

theorem render_without_predictor_witness:
  "model_ready ready_48k
   \<and> \<not> fst (PredictControlsModel_call (model ready_48k)
               ((run_with (Finite 1) (Finite 1))\<lparr>invoke_ok := False\<rparr>) features_440
               (synthesis_input ready_48k))
   \<and> getNumReadySamples
         (render ((run_with (Finite 1) (Finite 1))\<lparr>invoke_ok := False\<rparr>) silent_hop ready_48k)
       = getNumReadySamples ready_48k"
proof -
  have fails: "\<not> fst (PredictControlsModel_call (model ready_48k)
               ((run_with (Finite 1) (Finite 1))\<lparr>invoke_ok := False\<rparr>) features_440
               (synthesis_input ready_48k))"
    by (simp add: ready_48k_fields PredictControlsModel_call_def loaded_model_def run_with_def)
  then have "\<not> model_ready ready_48k
     \<or> \<not> fst (PredictControlsModel_call (model ready_48k)
               ((run_with (Finite 1) (Finite 1))\<lparr>invoke_ok := False\<rparr>) features_440
               (synthesis_input ready_48k))"
    by simp
  from render_without_predictor [OF this, of silent_hop] fails show ?thesis
    by (simp add: ready_48k_fields)
qed

subsection \<open>InferencePipeline: reading from the output ring\<close>

lemma pop_result:
  assumes fifo: "output_fifo s = Some f"
    and blocks: "prepareToRead f n = (start1, size1, start2, size2)"
  shows "popFromOutputBuffer output n s =
     (size1 + size2,
      (let out1 = (if size1 > 0 then std_copy (slice (output_ring_buffer s) start1 size1) output 0
                   else output);
           out2 = (if size2 > 0
                   then std_copy (slice (output_ring_buffer s) start2 size2) out1 (nat size1)
                   else out1)
       in if size1 + size2 < n then std_fill out2 (nat (size1 + size2)) (nat n) 0 else out2),
      s\<lparr>output_fifo := Some (finishedRead f (size1 + size2))\<rparr>)"
  using assms by (simp add: popFromOutputBuffer_def Let_def)

lemma pop_contents:
  fixes b1 b2 vs m :: nat
  assumes len: "length src = m" and n_le: "n \<le> length output"
    and k: "b1 + b2 \<le> n"
    and first: "0 < b1 \<Longrightarrow> vs + b1 \<le> m"
    and second: "0 < b2 \<Longrightarrow> vs + b1 = m \<and> b2 \<le> m \<and> 0 < b1"
    and vs: "vs < m"
  defines "out1 \<equiv> (if 0 < b1 then std_copy (take b1 (drop vs src)) output 0 else output)"
  defines "out2 \<equiv> (if 0 < b2 then std_copy (take b2 (drop 0 src)) out1 b1 else out1)"
  defines "out3 \<equiv> (if b1 + b2 < n then std_fill out2 (b1 + b2) n 0 else out2)"
  shows "length out3 = length output"
    and "\<And>i. b1 + b2 \<le> i \<Longrightarrow> i < n \<Longrightarrow> out3 ! i = 0"
    and "\<And>i. i < b1 + b2 \<Longrightarrow> out3 ! i = src ! ((vs + i) mod m)"
    and "\<And>i. n \<le> i \<Longrightarrow> i < length output \<Longrightarrow> out3 ! i = output ! i"
proof -
  have l1: "length out1 = length output"
    using n_le k first len by (auto simp: out1_def length_std_copy)
  have l2: "length out2 = length output"
    using n_le k second len l1 by (auto simp: out2_def length_std_copy)
  show l3: "length out3 = length output"
    using n_le k l2 by (auto simp: out3_def length_std_fill)
  have n1: "\<And>i. i < length output \<Longrightarrow>
              out1 ! i = (if i < b1 then src ! (vs + i) else output ! i)"
    using n_le k first len by (auto simp: out1_def nth_std_copy)
  have n2: "\<And>i. i < length output \<Longrightarrow>
              out2 ! i = (if i < b1 then src ! (vs + i)
                          else if i < b1 + b2 then src ! (i - b1) else output ! i)"
    using n_le k second len l1 n1 by (auto simp: out2_def nth_std_copy)
  have n3: "\<And>i. i < length output \<Longrightarrow>
              out3 ! i = (if i < b1 then src ! (vs + i)
                          else if i < b1 + b2 then src ! (i - b1)
                          else if i < n then 0 else output ! i)"
    using n_le k l2 n2 by (auto simp: out3_def nth_std_fill)
  show "\<And>i. b1 + b2 \<le> i \<Longrightarrow> i < n \<Longrightarrow> out3 ! i = 0"
    using n3 n_le by auto
  show "\<And>i. n \<le> i \<Longrightarrow> i < length output \<Longrightarrow> out3 ! i = output ! i"
    using n3 k by auto
  show "\<And>i. i < b1 + b2 \<Longrightarrow> out3 ! i = src ! ((vs + i) mod m)"
  proof -
    fix i assume i: "i < b1 + b2"
    show "out3 ! i = src ! ((vs + i) mod m)"
    proof (cases "i < b1")
      case True
      then have "vs + i < m" using first by auto
      then show ?thesis using n3 [of i] True i k n_le by auto
    next
      case False
      with i have b2: "0 < b2" by auto
      from second [OF b2] have eq: "vs + b1 = m" "b2 \<le> m" by auto
      from False i eq have "vs + i = m + (i - b1)" "i - b1 < m" by auto
      then have "(vs + i) mod m = i - b1" by simp
      then show ?thesis using n3 [of i] False i k n_le by auto
    qed
  qed
qed


text \<open>
  C6.  On a prepared output ring (an output FIFO with its indices inside the buffer, a
  ring of that size) \<^verbatim>\<open>popFromOutputBuffer\<close> with \<open>n \<ge> 0\<close> returns \<open>k\<close>, the smaller of \<open>n\<close>
  and the number of ready samples; the first \<open>k\<close> positions of the destination receive
  the ready samples in ring order, the positions from \<open>k\<close> up to \<open>n\<close> are set to zero, the
  rest of the destination is untouched, and \<open>k\<close> samples leave the ring.  With an empty
  ring it returns 0 and the first \<open>n\<close> positions are all zero.  The function is total:
  it has no waiting step.
\<close>

theorem pop_underrun_zero_fill:
  assumes fifo: "output_fifo s = Some f" and ok: "fifo_ok f"
    and ring: "length (output_ring_buffer s) = nat (bufferSize f)"
    and n0: "0 \<le> n" and fits: "nat n \<le> length output"
    and pop: "popFromOutputBuffer output n s = (k, out', s')"
  shows "k = min n (getNumReady f)
       \<and> length out' = length output
       \<and> (\<forall>i. nat k \<le> i \<and> i < nat n \<longrightarrow> out' ! i = 0)
       \<and> (\<forall>i < nat k. out' ! i
              = output_ring_buffer s ! ((nat (validStart f) + i) mod nat (bufferSize f)))
       \<and> (\<forall>i. nat n \<le> i \<and> i < length output \<longrightarrow> out' ! i = output ! i)
       \<and> getNumReadySamples s' = getNumReady f - k
       \<and> (getNumReady f = 0 \<longrightarrow> k = 0 \<and> take (nat n) out' = replicate (nat n) 0)"
proof -
  obtain start1 size1 start2 size2 where
    blocks: "prepareToRead f n = (start1, size1, start2, size2)"
    by (metis prod_cases4)
  note b = prepareToRead_blocks [OF ok blocks]
  have ready: "0 \<le> getNumReady f" "getNumReady f < bufferSize f"
    using getNumReady_bounds [OF ok] by auto
  have k: "k = size1 + size2"
    and s': "s' = s\<lparr>output_fifo := Some (finishedRead f (size1 + size2))\<rparr>"
  proof -
    have "k = fst (popFromOutputBuffer output n s)"
      and "s' = snd (snd (popFromOutputBuffer output n s))"
      using pop by simp_all
    then show "k = size1 + size2"
      and "s' = s\<lparr>output_fifo := Some (finishedRead f (size1 + size2))\<rparr>"
      by (simp_all only: pop_result [OF fifo blocks] fst_conv snd_conv)
  qed
  have kmin: "k = min n (getNumReady f)"
    using k b(1) n0 ready by auto
  have vs: "0 \<le> validStart f" "validStart f < bufferSize f"
    using ok by (auto simp: fifo_ok_def)
  define b1 b2 v m where "b1 = nat size1" and "b2 = nat size2"
    and "v = nat (validStart f)" and "m = nat (bufferSize f)"
  have out': "out' =
      (let out1 = (if 0 < b1 then std_copy (take b1 (drop v (output_ring_buffer s))) output 0
                   else output);
           out2 = (if 0 < b2 then std_copy (take b2 (drop 0 (output_ring_buffer s))) out1 b1
                   else out1)
       in if b1 + b2 < nat n then std_fill out2 (b1 + b2) (nat n) 0 else out2)"
  proof -
    have c1: "(size1 > 0) = (0 < b1)" and c2: "(size2 > 0) = (0 < b2)"
      by (auto simp: b1_def b2_def)
    have c3: "(size1 + size2 < n) = (b1 + b2 < nat n)"
      using b(2,3) n0 by (auto simp: b1_def b2_def)
    have c4: "nat (size1 + size2) = b1 + b2"
      using b(2,3) by (simp add: b1_def b2_def nat_add_distrib)
    have s1: "0 < b1 \<Longrightarrow> slice (output_ring_buffer s) start1 size1
                = take b1 (drop v (output_ring_buffer s))"
      using b(4) by (simp add: slice_def b1_def v_def)
    have s2: "0 < b2 \<Longrightarrow> slice (output_ring_buffer s) start2 size2
                = take b2 (drop 0 (output_ring_buffer s))"
      using b(5) by (simp add: slice_def b2_def)
    have "out' = fst (snd (popFromOutputBuffer output n s))"
      using pop by simp
    also have "\<dots> = (let out1 = (if size1 > 0
                     then std_copy (slice (output_ring_buffer s) start1 size1) output 0
                     else output);
           out2 = (if size2 > 0
                   then std_copy (slice (output_ring_buffer s) start2 size2) out1 (nat size1)
                   else out1)
       in if size1 + size2 < n then std_fill out2 (nat (size1 + size2)) (nat n) 0 else out2)"
      by (simp only: pop_result [OF fifo blocks] fst_conv snd_conv)
    finally have "out' = (let out1 = (if size1 > 0
                     then std_copy (slice (output_ring_buffer s) start1 size1) output 0
                     else output);
           out2 = (if size2 > 0
                   then std_copy (slice (output_ring_buffer s) start2 size2) out1 (nat size1)
                   else out1)
       in if size1 + size2 < n then std_fill out2 (nat (size1 + size2)) (nat n) 0 else out2)" .
    then show ?thesis
      unfolding c1 c2 c3 c4 Let_def using s1 s2 by (simp add: b1_def)
  qed
  have le: "b1 + b2 \<le> nat n"
    using kmin k b(2,3) n0 by (auto simp: b1_def b2_def)
  have first: "0 < b1 \<Longrightarrow> v + b1 \<le> m"
    using b(4) vs b(2) by (auto simp: b1_def v_def m_def)
  have second: "0 < b2 \<Longrightarrow> v + b1 = m \<and> b2 \<le> m \<and> 0 < b1"
    using b(5) b(8) vs b(2,3) ok by (auto simp: b1_def b2_def v_def m_def fifo_ok_def)
  have vm: "v < m"
    using vs by (auto simp: v_def m_def)
  have len: "length (output_ring_buffer s) = m"
    using ring by (simp add: m_def)
  note c = pop_contents [OF len fits le first second vm]
  have nk: "nat k = b1 + b2"
    using k b(2,3) by (simp add: b1_def b2_def nat_add_distrib)
  have L: "length out' = length output"
    using c(1) out' by (simp add: Let_def)
  have Z: "\<forall>i. nat k \<le> i \<and> i < nat n \<longrightarrow> out' ! i = 0"
    using c(2) out' nk by (simp add: Let_def)
  have R: "\<forall>i < nat k. out' ! i
              = output_ring_buffer s ! ((nat (validStart f) + i) mod nat (bufferSize f))"
    using c(3) out' nk by (simp add: Let_def v_def m_def)
  have U: "\<forall>i. nat n \<le> i \<and> i < length output \<longrightarrow> out' ! i = output ! i"
    using c(4) out' by (simp add: Let_def)
  have N: "getNumReadySamples s' = getNumReady f - k"
    using s' k finishedRead_ready(2) [OF ok, of "size1 + size2"] b(1,2,3) n0 ready
    by (auto simp: getNumReadySamples_def)
  have E: "getNumReady f = 0 \<longrightarrow> k = 0 \<and> take (nat n) out' = replicate (nat n) 0"
  proof
    assume "getNumReady f = 0"
    with kmin n0 have k0: "k = 0" by simp
    have "take (nat n) out' = replicate (nat n) 0"
      using Z L fits k0 by (auto intro!: nth_equalityI)
    with k0 show "k = 0 \<and> take (nat n) out' = replicate (nat n) 0" by simp
  qed
  from kmin L Z R U N E show ?thesis by blast
qed


theorem pop_underrun_zero_fill_witness:
  "fst (popFromOutputBuffer [7, 7, 7, 7] 3 prepared_48k) = 0
   \<and> take 3 (fst (snd (popFromOutputBuffer [7, 7, 7, 7] 3 prepared_48k))) = [0, 0, 0]
   \<and> fst (snd (popFromOutputBuffer [7, 7, 7, 7] 3 prepared_48k)) ! 3 = 7"
proof -
  let ?f = "\<lparr>bufferSize = 61440, validStart = 0, validEnd = 0\<rparr>"
  let ?r = "popFromOutputBuffer [7, 7, 7, 7] 3 prepared_48k"
  have fifo: "output_fifo prepared_48k = Some ?f"
    by (simp add: prepared_48k_fields)
  have ok: "fifo_ok ?f"
    by (simp add: fifo_ok_def)
  have ring: "length (output_ring_buffer prepared_48k) = nat (bufferSize ?f)"
    by (simp add: prepared_48k_fields)
  have n0: "(0::int) \<le> 3" by simp
  have fits: "nat 3 \<le> length [7, 7, 7, 7 :: real]" by simp
  have pop: "?r = (fst ?r, fst (snd ?r), snd (snd ?r))" by simp
  have empty: "getNumReady ?f = 0"
    by (simp add: getNumReady_def)
  from pop_underrun_zero_fill [OF fifo ok ring n0 fits pop] empty
  have "fst ?r = 0" and "take (nat 3) (fst (snd ?r)) = replicate (nat 3) 0"
    and "fst (snd ?r) ! 3 = [7, 7, 7, 7 :: real] ! 3"
    by auto
  then show ?thesis
    by (simp add: numeral_3_eq_3)
qed

subsection \<open>InferencePipeline: reset and prepareToPlay\<close>

lemma reset_untouched:
  "should_run (reset s) = should_run s"
  "render_thread (reset s) = render_thread s"
  "user_frame_size (reset s) = user_frame_size s"
  "user_hop_size (reset s) = user_hop_size s"
  "model_ready (reset s) = model_ready s"
  by (simp_all add: reset_def zeroPadInputBuffer_def pushToInputBuffer_def Let_def
        case_prod_beta split: option.splits)

lemma reset_components:
  "model (reset s) = PredictControlsModel_reset (model s)"
  "harmonic_synth (reset s) = HarmonicSynthesizer_reset (harmonic_synth s)"
  "noise_synth (reset s) = NoiseSynthesizer_reset (noise_synth s)"
  "output_fifo (reset s) = map_option AbstractFifo_reset (output_fifo s)"
  "output_ring_buffer (reset s) = replicate (length (output_ring_buffer s)) 0"
  "resampled_model_output_buffer (reset s)
     = replicate (length (resampled_model_output_buffer s)) 0"
  by (simp_all add: reset_def zeroPadInputBuffer_def pushToInputBuffer_def Let_def
        case_prod_beta AudioBuffer_clear_def split: option.splits)

lemma reset_output_empty: "getNumReadySamples (reset s) = 0"
  by (simp add: getNumReadySamples_def reset_components AbstractFifo_reset_def
        getNumReady_def split: option.splits)

lemma reset_input_none:
  "input_fifo s = None \<Longrightarrow> input_fifo (reset s) = None"
  by (simp add: reset_def zeroPadInputBuffer_def)

lemma std_copy_zeros:
  "off + n \<le> m \<Longrightarrow> std_copy (replicate n (0::real)) (replicate m 0) off = replicate m 0"
  by (auto simp: std_copy_def replicate_add [symmetric])

lemma reset_input_padded:
  assumes fifo: "input_fifo s = Some f" and size: "0 < bufferSize f"
    and ring: "length (input_ring_buffer s) = nat (bufferSize f)"
  shows "input_fifo (reset s)
           = Some \<lparr>bufferSize = bufferSize f, validStart = 0,
                   validEnd = max 0 (min (user_frame_size s) (bufferSize f - 1))\<rparr>"
    and "input_ring_buffer (reset s) = replicate (nat (bufferSize f)) 0"
proof -
  let ?B = "bufferSize f" and ?n = "user_frame_size s"
  let ?f0 = "AbstractFifo_reset f"
  have f0: "?f0 = \<lparr>bufferSize = ?B, validStart = 0, validEnd = 0\<rparr>"
    by (simp add: AbstractFifo_reset_def)
  show "input_fifo (reset s)
           = Some \<lparr>bufferSize = ?B, validStart = 0, validEnd = max 0 (min ?n (?B - 1))\<rparr>"
    using fifo size
    by (simp add: reset_def zeroPadInputBuffer_def pushToInputBuffer_def Let_def f0
          prepareToWrite_def finishedWrite_def AudioBuffer_setSize_def min_def max_def)
  show "input_ring_buffer (reset s) = replicate (nat ?B) 0"
    using fifo size ring
    by (auto simp: reset_def zeroPadInputBuffer_def pushToInputBuffer_def Let_def f0
          prepareToWrite_def finishedWrite_def AudioBuffer_setSize_def AudioBuffer_clear_def
          slice_def std_copy_zeros min_def)
qed


lemma prepare_frame_hop:
  "user_frame_size (prepareToPlay rate block s) = \<lceil>rate * 1024 / 16000\<rceil>"
  "user_hop_size (prepareToPlay rate block s) = trunc (rate * 320 / 16000)"
  by (simp_all add: prepareToPlay_def Let_def reset_untouched kModelFrameSize_def
        kModelHopSize_def kModelSampleRate_Hz_def)





lemma reset_input_ring_zero:
  assumes "ring_ok (input_fifo s) (input_ring_buffer s)"
  shows "input_ring_buffer (reset s) = replicate (length (input_ring_buffer s)) 0"
proof (cases "input_fifo s")
  case None
  then show ?thesis
    by (simp add: reset_def zeroPadInputBuffer_def AudioBuffer_clear_def)
next
  case (Some f)
  with assms have "0 < bufferSize f" "length (input_ring_buffer s) = nat (bufferSize f)"
    by (simp_all add: ring_ok_def fifo_ok_def)
  with reset_input_padded(2) [OF Some] show ?thesis by simp
qed

text \<open>
  C9 (amended).  \<^verbatim>\<open>reset\<close> leaves the render worker as it is: the run flag and the thread
  object are unchanged (only \<^verbatim>\<open>stopTimer\<close> clears the flag and joins the thread).  It
  resets the predictor (its recurrent state becomes all zero) and both synthesizers,
  clears both ring buffers and both FIFO indices, so that the output ring is empty, and
  pushes \<open>user_frame_size\<close> zero samples, as many as fit, into the input ring.
\<close>

theorem reset_keeps_worker:
  assumes "ring_ok (input_fifo s) (input_ring_buffer s)"
  shows "should_run (reset s) = should_run s
       \<and> render_thread (reset s) = render_thread s
       \<and> model (reset s) = PredictControlsModel_reset (model s)
       \<and> gruState (model (reset s)) = replicate (length (gruState (model s))) (Finite 0)
       \<and> harmonic_synth (reset s) = HarmonicSynthesizer_reset (harmonic_synth s)
       \<and> noise_synth (reset s) = NoiseSynthesizer_reset (noise_synth s)
       \<and> getNumReadySamples (reset s) = 0
       \<and> output_ring_buffer (reset s) = replicate (length (output_ring_buffer s)) 0
       \<and> input_ring_buffer (reset s) = replicate (length (input_ring_buffer s)) 0
       \<and> (\<forall>f. input_fifo s = Some f \<longrightarrow>
              input_fifo (reset s)
                = Some \<lparr>bufferSize = bufferSize f, validStart = 0,
                        validEnd = max 0 (min (user_frame_size s) (bufferSize f - 1))\<rparr>)"
proof -
  have "\<forall>f. input_fifo s = Some f \<longrightarrow>
              input_fifo (reset s)
                = Some \<lparr>bufferSize = bufferSize f, validStart = 0,
                        validEnd = max 0 (min (user_frame_size s) (bufferSize f - 1))\<rparr>"
  proof (intro allI impI)
    fix f assume f: "input_fifo s = Some f"
    with assms have "0 < bufferSize f" "length (input_ring_buffer s) = nat (bufferSize f)"
      by (simp_all add: ring_ok_def fifo_ok_def)
    with reset_input_padded(1) [OF f]
    show "input_fifo (reset s)
                = Some \<lparr>bufferSize = bufferSize f, validStart = 0,
                        validEnd = max 0 (min (user_frame_size s) (bufferSize f - 1))\<rparr>"
      by simp
  qed
  moreover have "gruState (model (reset s))
                   = replicate (length (gruState (model s))) (Finite 0)"
    by (simp add: reset_components PredictControlsModel_reset_def)
  ultimately show ?thesis
    using reset_input_ring_zero [OF assms]
    by (simp add: reset_untouched reset_components reset_output_empty)
qed

lemma prepared_48k_input_ring: "input_ring_buffer prepared_48k = replicate 61440 0"
  using prepare_frame_hop(1) [of 48000 512 InferencePipeline_new]
  by (simp add: prepared_48k_def prepareToPlay_def reset_def zeroPadInputBuffer_def
        pushToInputBuffer_def trunc_960 ceiling_3072 InferencePipeline_new_def Let_def
        AbstractFifo_new_def AbstractFifo_reset_def kRingBufferSize_def prepareToWrite_def
        finishedWrite_def AudioBuffer_setSize_def AudioBuffer_clear_def slice_def
        std_copy_zeros)

theorem reset_keeps_worker_witness:
  "ring_ok (input_fifo (startTimer 20 prepared_48k))
     (input_ring_buffer (startTimer 20 prepared_48k))
   \<and> should_run (startTimer 20 prepared_48k)
   \<and> should_run (reset (startTimer 20 prepared_48k))
   \<and> getNumReadySamples (reset (startTimer 20 prepared_48k)) = 0
   \<and> input_fifo (reset (startTimer 20 prepared_48k))
       = Some \<lparr>bufferSize = 61440, validStart = 0, validEnd = 3072\<rparr>"
proof -
  let ?s = "startTimer 20 prepared_48k"
  have fields: "input_fifo ?s = Some \<lparr>bufferSize = 61440, validStart = 0, validEnd = 3072\<rparr>"
    "input_ring_buffer ?s = replicate 61440 0" "should_run ?s" "user_frame_size ?s = 3072"
    by (simp_all add: startTimer_def prepared_48k_fields prepared_48k_input_ring)
  have ok: "ring_ok (input_fifo ?s) (input_ring_buffer ?s)"
    by (simp add: fields ring_ok_def fifo_ok_def)
  from reset_keeps_worker [OF ok] fields ok show ?thesis
    by simp
qed

theorem reset_worker_counterexample:
  "should_run (startTimer 20 prepared_48k)
   \<and> should_run (reset (startTimer 20 prepared_48k))
   \<and> render_thread (reset (startTimer 20 prepared_48k))
   \<and> user_frame_size (reset (startTimer 20 prepared_48k)) = 3072
   \<and> getNumReadySamples (reset (startTimer 20 prepared_48k)) = 0"
  by (simp add: reset_untouched reset_output_empty startTimer_def prepared_48k_fields)

subsection \<open>InferencePipeline: the hop pushed by a successful render\<close>








subsection \<open>Loops over a buffer\<close>

lemma length_for_index [simp]: "length (for_index n body xs) = length xs"
proof -
  have "\<And>is ys. length (fold (\<lambda>i ys. ys[i := body i (ys ! i)]) is ys) = length ys"
  proof -
    fix "is" :: "nat list" and ys :: "'a list"
    show "length (fold (\<lambda>i ys. ys[i := body i (ys ! i)]) is ys) = length ys"
      by (induction "is" arbitrary: ys) simp_all
  qed
  then show ?thesis by (simp add: for_index_def)
qed

lemma for_index_Suc:
  "for_index (Suc n) body xs
     = (for_index n body xs)[n := body n (for_index n body xs ! n)]"
  by (simp add: for_index_def)

lemma for_index_eq:
  "n \<le> length xs \<Longrightarrow>
   for_index n body xs = map (\<lambda>i. body i (xs ! i)) [0..<n] @ drop n xs"
proof (induction n)
  case 0
  then show ?case by (simp add: for_index_def)
next
  case (Suc n)
  then have IH: "for_index n body xs = map (\<lambda>i. body i (xs ! i)) [0..<n] @ drop n xs"
    by simp
  from Suc.prems have n: "n < length xs" by simp
  have at_n: "for_index n body xs ! n = xs ! n"
    using n by (simp add: IH nth_append)
  have "(map (\<lambda>i. body i (xs ! i)) [0..<n] @ drop n xs)[n := body n (xs ! n)]
          = map (\<lambda>i. body i (xs ! i)) [0..<n] @ (drop n xs)[0 := body n (xs ! n)]"
    by (simp add: list_update_append)
  also have "(drop n xs)[0 := body n (xs ! n)] = body n (xs ! n) # drop (Suc n) xs"
    using n by (simp add: Cons_nth_drop_Suc [symmetric])
  finally have upd: "(map (\<lambda>i. body i (xs ! i)) [0..<n] @ drop n xs)[n := body n (xs ! n)]
          = map (\<lambda>i. body i (xs ! i)) [0..<n] @ body n (xs ! n) # drop (Suc n) xs" .
  have "for_index (Suc n) body xs = (for_index n body xs)[n := body n (xs ! n)]"
    by (simp only: for_index_Suc at_n)
  also have "\<dots> = map (\<lambda>i. body i (xs ! i)) [0..<n] @ body n (xs ! n) # drop (Suc n) xs"
    by (simp only: IH upd)
  finally show ?case by simp
qed

lemma for_index_full:
  "length xs = n \<Longrightarrow> for_index n body xs = map (\<lambda>i. body i (xs ! i)) [0..<n]"
  by (simp add: for_index_eq)

lemma for_index_full_map:
  "length xs = n \<Longrightarrow> for_index n (\<lambda>i. g) xs = map g xs"
  by (auto simp: for_index_full intro!: nth_equalityI)

lemma std_accumulate_sum_list: "std_accumulate xs 0 = sum_list xs"
proof -
  have "\<And>a. foldl (+) a xs = a + sum_list xs"
    by (induction xs) (simp_all add: algebra_simps)
  then show ?thesis by (simp add: std_accumulate_def)
qed

subsection \<open>HarmonicSynthesizer: normalisation\<close>

lemma normalize_fst:
  assumes shape: "hs_shape s"
  shows "fst (normalizeHarmonicDistribution s d amp f0) =
           s\<lparr>frame_frequencies := map (\<lambda>i. (1 + real i) * f0) [0..<num_harmonics s]\<rparr>"
proof -
  have "for_index (num_harmonics s) (\<lambda>i _. harmonic_series s ! i * f0) (frame_frequencies s)
          = map (\<lambda>i. (1 + real i) * f0) [0..<num_harmonics s]"
    using shape by (simp add: hs_shape_def for_index_full)
  then show ?thesis
    unfolding normalizeHarmonicDistribution_def Let_def fst_conv by (simp only:)
qed

lemma normalize_eq:
  assumes shape: "hs_shape s" and len: "length d = num_harmonics s"
  shows "snd (normalizeHarmonicDistribution s d amp f0) =
     (let d1 = nyquist_filtered (num_harmonics s) (hs_sample_rate s) f0 d;
          total = sum_list d1
      in map (\<lambda>x. x * amp) (if total \<noteq> 0 then map (\<lambda>x. x * (1 / total)) d1 else d1))"
proof -
  let ?n = "num_harmonics s"
  let ?freqs = "for_index ?n (\<lambda>i _. harmonic_series s ! i * f0) (frame_frequencies s)"
  have freqs: "?freqs = map (\<lambda>i. (1 + real i) * f0) [0..<?n]"
    using shape by (simp add: hs_shape_def for_index_full)
  let ?d1 = "for_index ?n (\<lambda>i x. if ?freqs ! i \<ge> hs_sample_rate s / 2 then 0 else x) d"
  have d1: "?d1 = nyquist_filtered ?n (hs_sample_rate s) f0 d"
    using len by (simp add: for_index_full freqs nyquist_filtered_def)
  have l1: "length (nyquist_filtered ?n (hs_sample_rate s) f0 d) = ?n"
    by (simp add: nyquist_filtered_def)
  show ?thesis
    unfolding normalizeHarmonicDistribution_def Let_def snd_conv d1 std_accumulate_sum_list
    using l1 by (simp add: for_index_full_map)
qed




lemma hs_shape_new: "hs_shape (HarmonicSynthesizer_new n_harmonics n_samples rate)"
  by (simp add: hs_shape_def HarmonicSynthesizer_new_def list_all_iff)


subsection \<open>HarmonicSynthesizer: interpolation and phase\<close>

lemma midwayLerp_eq:
  "midwayLerp a b r =
     map (\<lambda>i. a + real i / real (length r div 2) * (b - a)) [0..<length r div 2]
     @ replicate (length r - length r div 2) b"
proof (cases "length r div 2 = 0")
  case True
  then show ?thesis
    by (simp add: midwayLerp_def interpolateLinearly_def std_fill_def)
next
  case False
  let ?m = "length r div 2"
  have m: "?m \<le> length r" by simp
  have "interpolateLinearly r ?m a b
          = map (\<lambda>i. a + real i / real ?m * (b - a)) [0..<?m] @ drop ?m r"
    using False by (simp add: interpolateLinearly_def for_index_eq [OF m])
  then show ?thesis
    by (simp add: midwayLerp_def Let_def std_fill_def)
qed

lemma length_midwayLerp [simp]: "length (midwayLerp a b r) = length r"
  by (simp add: midwayLerp_eq)

lemma midwayLerp_zero: "midwayLerp 0 0 r = replicate (length r) 0"
proof -
  have "map (\<lambda>i. (0::real)) [0..<length r div 2] = replicate (length r div 2) 0"
    by (simp add: map_replicate_const)
  then have "midwayLerp 0 0 r
      = replicate (length r div 2) 0 @ replicate (length r - length r div 2) 0"
    by (simp add: midwayLerp_eq)
  also have "\<dots> = replicate (length r) 0"
    by (simp add: replicate_add [symmetric])
  finally show ?thesis .
qed



lemma length_partial_sum_from [simp]: "length (partial_sum_from acc xs) = length xs"
  by (induction xs arbitrary: acc) simp_all

lemma length_std_partial_sum [simp]: "length (std_partial_sum xs) = length xs"
  by (simp add: std_partial_sum_def split: list.splits)





subsection \<open>HarmonicSynthesizer: what one render leaves in the state\<close>

lemma synthesize_phase:
  assumes len: "length (frequency_envelope s) = num_output_samples s"
    and ph: "length (phases s) = num_output_samples s"
  shows "phases (synthesizeHarmonics s)
           = map (\<lambda>x. x + previous_phase s)
               (std_partial_sum (map (\<lambda>x. x * (kTwoPi / hs_sample_rate s))
                   (frequency_envelope s)))"
    and "previous_phase (synthesizeHarmonics s)
           = std_fmod (last (phases (synthesizeHarmonics s))) kTwoPi"
    and "harmonic_amplitudes (synthesizeHarmonics s) = harmonic_amplitudes s"
    and "num_output_samples (synthesizeHarmonics s) = num_output_samples s"
    and "num_harmonics (synthesizeHarmonics s) = num_harmonics s"
proof -
  show p: "phases (synthesizeHarmonics s)
           = map (\<lambda>x. x + previous_phase s)
               (std_partial_sum (map (\<lambda>x. x * (kTwoPi / hs_sample_rate s))
                   (frequency_envelope s)))"
    using len ph
    by (simp add: synthesizeHarmonics_def Let_def for_index_full_map std_copy_def)
  show "previous_phase (synthesizeHarmonics s)
           = std_fmod (last (phases (synthesizeHarmonics s))) kTwoPi"
    by (simp add: synthesizeHarmonics_def Let_def)
  show "harmonic_amplitudes (synthesizeHarmonics s) = harmonic_amplitudes s"
    and "num_output_samples (synthesizeHarmonics s) = num_output_samples s"
    and "num_harmonics (synthesizeHarmonics s) = num_harmonics s"
    by (simp_all add: synthesizeHarmonics_def Let_def)
qed

lemma mix_nth:
  assumes "length buf = n" and "k < n"
  shows "fold (\<lambda>h buf. for_index n (\<lambda>k x. x + g h k) buf) [0..<m] buf ! k
           = buf ! k + (\<Sum>h<m. g h k)"
    and "length (fold (\<lambda>h buf. for_index n (\<lambda>k x. x + g h k) buf) [0..<m] buf) = n"
proof (induction m)
  case 0
  show "fold (\<lambda>h buf. for_index n (\<lambda>k x. x + g h k) buf) [0..<0] buf ! k
           = buf ! k + (\<Sum>h<0. g h k)"
    and "length (fold (\<lambda>h buf. for_index n (\<lambda>k x. x + g h k) buf) [0..<0] buf) = n"
    using assms by simp_all
next
  case (Suc m)
  let ?prev = "fold (\<lambda>h buf. for_index n (\<lambda>k x. x + g h k) buf) [0..<m] buf"
  have step: "fold (\<lambda>h buf. for_index n (\<lambda>k x. x + g h k) buf) [0..<Suc m] buf
                = for_index n (\<lambda>k x. x + g m k) ?prev"
    by simp
  show "length (fold (\<lambda>h buf. for_index n (\<lambda>k x. x + g h k) buf) [0..<Suc m] buf) = n"
    unfolding step using Suc(2) by simp
  have "for_index n (\<lambda>k x. x + g m k) ?prev ! k = ?prev ! k + g m k"
    using Suc(2) assms(2) by (simp add: for_index_full)
  then show "fold (\<lambda>h buf. for_index n (\<lambda>k x. x + g h k) buf) [0..<Suc m] buf ! k
           = buf ! k + (\<Sum>h<Suc m. g h k)"
    unfolding step using Suc(1) by (simp add: add.assoc)
qed

lemma synthesize_mix:
  assumes rb: "length (render_buffer s) = num_output_samples s"
    and k: "k < num_output_samples s"
  shows "render_buffer (synthesizeHarmonics s) ! k
           = (\<Sum>h<num_harmonics s.
                sin (phases (synthesizeHarmonics s) ! k * real (h + 1))
                  * (harmonic_amplitudes s ! h ! k))"
proof -
  let ?ph = "phases (synthesizeHarmonics s)"
  let ?g = "\<lambda>h k. sin (?ph ! k * real (h + 1)) * (harmonic_amplitudes s ! h ! k)"
  have "render_buffer (synthesizeHarmonics s)
          = fold (\<lambda>h buf. for_index (num_output_samples s) (\<lambda>k x. x + ?g h k) buf)
              [0..<num_harmonics s] (replicate (length (render_buffer s)) 0)"
    by (simp add: synthesizeHarmonics_def Let_def std_fill_all)
  then show ?thesis
    using mix_nth(1) [of "replicate (length (render_buffer s)) 0" "num_output_samples s" k ?g
            "num_harmonics s"] rb k
    by simp
qed


lemma render_parts:
  fixes s :: HarmonicSynthesizer and d :: "real list" and amp f0 :: real
  assumes shape: "hs_shape s"
  defines "dn \<equiv> snd (normalizeHarmonicDistribution s d amp f0)"
  defines "s' \<equiv> fst (HarmonicSynthesizer_render s d amp f0)"
  shows "snd (HarmonicSynthesizer_render s d amp f0) = dn"
    and "harmonic_amplitudes s'
           = map (\<lambda>i. midwayLerp (previous_harmonic_distribution s ! i) (dn ! i)
                        (harmonic_amplitudes s ! i)) [0..<num_harmonics s]"
    and "phases s'
           = map (\<lambda>x. x + previous_phase s)
               (std_partial_sum (map (\<lambda>x. x * (kTwoPi / hs_sample_rate s))
                  (midwayLerp (case previous_f0 s of None \<Rightarrow> f0 | Some p \<Rightarrow> p) f0
                     (frequency_envelope s))))"
    and "previous_phase s' = std_fmod (last (phases s')) kTwoPi"
    and "num_output_samples s' = num_output_samples s"
    and "num_harmonics s' = num_harmonics s"
    and "k < num_output_samples s \<Longrightarrow>
         render_buffer s' ! k
           = (\<Sum>h<num_harmonics s.
                sin (phases s' ! k * real (h + 1)) * (harmonic_amplitudes s' ! h ! k))"
proof -
  let ?prev = "case previous_f0 s of None \<Rightarrow> f0 | Some p \<Rightarrow> p"
  let ?pre = "s\<lparr>frame_frequencies := map (\<lambda>i. (1 + real i) * f0) [0..<num_harmonics s],
                previous_amplitude := amp,
                frequency_envelope := midwayLerp ?prev f0 (frequency_envelope s),
                previous_f0 := Some f0,
                harmonic_amplitudes :=
                  for_index (num_harmonics s)
                    (\<lambda>i row. midwayLerp (previous_harmonic_distribution s ! i) (dn ! i) row)
                    (harmonic_amplitudes s),
                previous_harmonic_distribution := dn\<rparr>"
  have r: "HarmonicSynthesizer_render s d amp f0 = (synthesizeHarmonics ?pre, dn)"
    by (simp add: HarmonicSynthesizer_render_def case_prod_beta Let_def dn_def
          normalize_fst [OF shape])
  have s': "s' = synthesizeHarmonics ?pre"
    by (simp add: s'_def r)
  have sizes: "length (frequency_envelope ?pre) = num_output_samples ?pre"
    "length (phases ?pre) = num_output_samples ?pre"
    "length (render_buffer ?pre) = num_output_samples ?pre"
    "length (harmonic_amplitudes s) = num_harmonics s"
    using shape by (simp_all add: hs_shape_def)
  note sp = synthesize_phase [OF sizes(1,2)]
  show "snd (HarmonicSynthesizer_render s d amp f0) = dn"
    by (simp add: r)
  show ha: "harmonic_amplitudes s'
           = map (\<lambda>i. midwayLerp (previous_harmonic_distribution s ! i) (dn ! i)
                        (harmonic_amplitudes s ! i)) [0..<num_harmonics s]"
    unfolding s' sp(3) using sizes(4) by (simp add: for_index_full)
  show "phases s'
           = map (\<lambda>x. x + previous_phase s)
               (std_partial_sum (map (\<lambda>x. x * (kTwoPi / hs_sample_rate s))
                  (midwayLerp ?prev f0 (frequency_envelope s))))"
    unfolding s' sp(1) by simp
  show "previous_phase s' = std_fmod (last (phases s')) kTwoPi"
    unfolding s' by (rule sp(2))
  show "num_output_samples s' = num_output_samples s"
    and "num_harmonics s' = num_harmonics s"
    unfolding s' sp(4,5) by simp_all
  show "render_buffer s' ! k
           = (\<Sum>h<num_harmonics s.
                sin (phases s' ! k * real (h + 1)) * (harmonic_amplitudes s' ! h ! k))"
    if k: "k < num_output_samples s"
  proof -
    have k': "k < num_output_samples ?pre" using k by simp
    have "render_buffer s' ! k
           = (\<Sum>h<num_harmonics ?pre.
                sin (phases s' ! k * real (h + 1)) * (harmonic_amplitudes ?pre ! h ! k))"
      unfolding s' by (rule synthesize_mix [OF sizes(3) k'])
    moreover have "harmonic_amplitudes ?pre = harmonic_amplitudes s'"
      unfolding s' sp(3) ..
    moreover have "num_harmonics ?pre = num_harmonics s" by simp
    ultimately show ?thesis by (simp only:)
  qed
qed








subsection \<open>HarmonicSynthesizer: harmonics at or above Nyquist\<close>

lemma hs_shape_reset: "hs_shape s \<Longrightarrow> hs_shape (HarmonicSynthesizer_reset s)"
  by (simp add: hs_shape_def HarmonicSynthesizer_reset_def length_std_fill)

lemma hs_reset_fields:
  "num_harmonics (HarmonicSynthesizer_reset s) = num_harmonics s"
  "num_output_samples (HarmonicSynthesizer_reset s) = num_output_samples s"
  "hs_sample_rate (HarmonicSynthesizer_reset s) = hs_sample_rate s"
  "harmonic_amplitudes (HarmonicSynthesizer_reset s) = harmonic_amplitudes s"
  "previous_harmonic_distribution (HarmonicSynthesizer_reset s)
     = replicate (length (previous_harmonic_distribution s)) 0"
  by (simp_all add: HarmonicSynthesizer_reset_def std_fill_all)

lemma nyquist_filtered_1000:
  assumes "\<forall>i < 7. d ! i = d' ! i"
  shows "nyquist_filtered 60 16000 1000 d = nyquist_filtered 60 16000 1000 d'"
proof -
  have "(if (1 + real i) * 1000 \<ge> 16000 / 2 then 0 else d ! i)
          = (if (1 + real i) * 1000 \<ge> 16000 / 2 then 0 else d' ! i)" for i
  proof (cases "i < 7")
    case True
    with assms show ?thesis by simp
  next
    case False
    then have "7 \<le> real i" by simp
    then have "(1 + real i) * 1000 \<ge> 16000 / 2" by simp
    then show ?thesis by simp
  qed
  then show ?thesis
    by (simp add: nyquist_filtered_def)
qed

lemma nyquist_filtered_1000_zero:
  assumes "7 \<le> h" "h < 60"
  shows "nyquist_filtered 60 16000 1000 d ! h = 0"
proof -
  from assms(1) have "7 \<le> real h" by simp
  then have "(1 + real h) * 1000 \<ge> 16000 / 2" by simp
  then show ?thesis
    using assms(2) by (simp add: nyquist_filtered_def)
qed

lemma sum_zero_tail:
  fixes g :: "nat \<Rightarrow> real"
  assumes "m \<le> n" and "\<forall>h. m \<le> h \<and> h < n \<longrightarrow> g h = 0"
  shows "(\<Sum>h<n. g h) = (\<Sum>h<m. g h)"
proof -
  have "(\<Sum>h\<in>{..<m}. g h) = (\<Sum>h\<in>{..<n}. g h)"
    using assms by (intro sum.mono_neutral_left) auto
  then show ?thesis by simp
qed


text \<open>
  C4.  A single \<^verbatim>\<open>render\<close> from the reset state of the pipeline's synthesizer (60
  harmonics, 16000 Hz) with \<open>f0 = 1000\<close>: two distributions that agree on the harmonics 1
  to 7 give the same result (output buffer, state and normalised distribution), so the
  output does not depend on the coefficients of the harmonics \<open>h \<ge> 8\<close>; those coefficients
  are zero after the normalisation, their amplitude envelopes are zero over the whole
  hop, and every output sample is the sum of the first seven sinusoids only.
\<close>

theorem nyquist_harmonics_silent:
  assumes shape: "hs_shape s" and n: "num_harmonics s = 60"
    and rate: "hs_sample_rate s = 16000"
    and len: "length d = 60" and len': "length d' = 60"
    and agree: "\<forall>i < 7. d ! i = d' ! i"
  shows "HarmonicSynthesizer_render (HarmonicSynthesizer_reset s) d amp 1000
           = HarmonicSynthesizer_render (HarmonicSynthesizer_reset s) d' amp 1000
       \<and> (\<forall>h. 7 \<le> h \<and> h < 60 \<longrightarrow>
              snd (HarmonicSynthesizer_render (HarmonicSynthesizer_reset s) d amp 1000) ! h = 0
            \<and> harmonic_amplitudes
                  (fst (HarmonicSynthesizer_render (HarmonicSynthesizer_reset s) d amp 1000)) ! h
                = replicate (num_output_samples s) 0)
       \<and> (\<forall>k < num_output_samples s.
              render_buffer
                (fst (HarmonicSynthesizer_render (HarmonicSynthesizer_reset s) d amp 1000)) ! k
              = (\<Sum>h<7.
                   sin (phases (fst (HarmonicSynthesizer_render (HarmonicSynthesizer_reset s)
                                       d amp 1000)) ! k * real (h + 1))
                   * (harmonic_amplitudes
                        (fst (HarmonicSynthesizer_render (HarmonicSynthesizer_reset s)
                                d amp 1000)) ! h ! k)))"
proof -
  let ?r = "HarmonicSynthesizer_reset s"
  let ?s' = "fst (HarmonicSynthesizer_render ?r d amp 1000)"
  let ?dn = "snd (normalizeHarmonicDistribution ?r d amp 1000)"
  have rshape: "hs_shape ?r"
    using shape by (rule hs_shape_reset)
  have rn: "num_harmonics ?r = 60" and rrate: "hs_sample_rate ?r = 16000"
    and rlen: "length d = num_harmonics ?r" "length d' = num_harmonics ?r"
    using n rate len len' by (simp_all add: hs_reset_fields)
  \<comment> \<open>the normalisation does not see the coefficients from the eighth on\<close>
  have "snd (normalizeHarmonicDistribution ?r d amp 1000)
          = snd (normalizeHarmonicDistribution ?r d' amp 1000)"
    unfolding normalize_eq [OF rshape rlen(1)] normalize_eq [OF rshape rlen(2)] rn rrate
    by (simp only: nyquist_filtered_1000 [OF agree])
  moreover have "fst (normalizeHarmonicDistribution ?r d amp 1000)
          = fst (normalizeHarmonicDistribution ?r d' amp 1000)"
    by (simp only: normalize_fst [OF rshape])
  ultimately have "normalizeHarmonicDistribution ?r d amp 1000
          = normalizeHarmonicDistribution ?r d' amp 1000"
    by (rule prod_eqI [rotated])
  then have same: "HarmonicSynthesizer_render ?r d amp 1000
           = HarmonicSynthesizer_render ?r d' amp 1000"
    by (simp only: HarmonicSynthesizer_render_def)
  \<comment> \<open>the coefficients and envelopes of the harmonics at or above Nyquist are zero\<close>
  have dn_zero: "?dn ! h = 0" if h: "7 \<le> h" "h < 60" for h
  proof -
    let ?d1 = "nyquist_filtered 60 16000 1000 d"
    have l: "length ?d1 = 60" by (simp add: nyquist_filtered_def)
    have z: "?d1 ! h = 0" using h by (rule nyquist_filtered_1000_zero)
    show ?thesis
      unfolding normalize_eq [OF rshape rlen(1)] rn rrate Let_def
      using l z h(2) by simp
  qed
  have rows: "length (harmonic_amplitudes s ! h) = num_output_samples s" if "h < 60" for h
    using shape n that by (simp add: hs_shape_def list_all_length)
  have prev_zero: "previous_harmonic_distribution ?r ! h = 0" if "h < 60" for h
    using shape n that by (simp add: hs_reset_fields hs_shape_def)
  have amp_zero: "harmonic_amplitudes ?s' ! h = replicate (num_output_samples s) 0"
    if h: "7 \<le> h" "h < 60" for h
    unfolding render_parts(2) [OF rshape] rn
    using h dn_zero [OF h] prev_zero [OF h(2)] rows [OF h(2)]
    by (simp add: hs_reset_fields midwayLerp_zero)
  have part2: "\<forall>h. 7 \<le> h \<and> h < 60 \<longrightarrow>
              snd (HarmonicSynthesizer_render ?r d amp 1000) ! h = 0
            \<and> harmonic_amplitudes ?s' ! h = replicate (num_output_samples s) 0"
    using dn_zero amp_zero by (simp add: render_parts(1) [OF rshape])
  \<comment> \<open>so the mix is the sum of the first seven sinusoids\<close>
  have part3: "\<forall>k < num_output_samples s.
              render_buffer ?s' ! k
              = (\<Sum>h<7. sin (phases ?s' ! k * real (h + 1))
                          * (harmonic_amplitudes ?s' ! h ! k))"
  proof (intro allI impI)
    fix k assume k: "k < num_output_samples s"
    then have k': "k < num_output_samples ?r" by (simp add: hs_reset_fields)
    let ?g = "\<lambda>h. sin (phases ?s' ! k * real (h + 1)) * (harmonic_amplitudes ?s' ! h ! k)"
    have "render_buffer ?s' ! k = (\<Sum>h<60. ?g h)"
      using render_parts(7) [OF rshape k'] by (simp only: rn)
    also have "\<dots> = (\<Sum>h<7. ?g h)"
    proof (rule sum_zero_tail)
      show "(7::nat) \<le> 60" by simp
      show "\<forall>h. 7 \<le> h \<and> h < 60 \<longrightarrow> ?g h = 0"
        using amp_zero k by simp
    qed
    finally show "render_buffer ?s' ! k = (\<Sum>h<7. ?g h)" .
  qed
  from same part2 part3 show ?thesis by blast
qed


theorem nyquist_harmonics_silent_witness:
  "hs_shape (HarmonicSynthesizer_new 60 320 16000)
   \<and> HarmonicSynthesizer_render
         (HarmonicSynthesizer_reset (HarmonicSynthesizer_new 60 320 16000))
         (replicate 60 1) 1 1000
       = HarmonicSynthesizer_render
           (HarmonicSynthesizer_reset (HarmonicSynthesizer_new 60 320 16000))
           (replicate 7 1 @ replicate 53 5) 1 1000"
proof -
  let ?s = "HarmonicSynthesizer_new 60 320 16000"
  have n: "num_harmonics ?s = 60" and rate: "hs_sample_rate ?s = 16000"
    by (simp_all add: HarmonicSynthesizer_new_def)
  have len: "length (replicate 60 (1::real)) = 60"
    and len': "length (replicate 7 (1::real) @ replicate 53 5) = 60"
    by simp_all
  have agree: "\<forall>i < 7. replicate 60 (1::real) ! i = (replicate 7 1 @ replicate 53 5) ! i"
    by (simp add: nth_append)
  from nyquist_harmonics_silent [OF hs_shape_new n rate len len' agree, of 1]
    hs_shape_new [of 60 320 16000]
  show ?thesis by blast
qed

end
